theory Spec2Isabelle
  imports Complex_Main "HOL-Library.Word" "HOL-Library.Signed_Division"
begin

section \<open>Package ansimage: data model\<close>

text \<open>
  The Go types \<open>ScaleMode\<close> and \<open>DitheringMode\<close> are \<open>uint8\<close>; the named constants are
  the values \<open>iota\<close> gives them. Any other byte is a value of the type as well, which the
  code treats as an unknown mode.
\<close>

type_synonym ScaleMode = "8 word"
type_synonym DitheringMode = "8 word"

definition ScaleModeResize :: ScaleMode where "ScaleModeResize = 0"
definition ScaleModeFill :: ScaleMode where "ScaleModeFill = 1"
definition ScaleModeFit :: ScaleMode where "ScaleModeFit = 2"

definition NoDithering :: DitheringMode where "NoDithering = 0"
definition DitheringWithBlocks :: DitheringMode where "DitheringWithBlocks = 1"
definition DitheringWithChars :: DitheringMode where "DitheringWithChars = 2"

definition BlockSizeY :: int where "BlockSizeY = 8"
definition BlockSizeX :: int where "BlockSizeX = 4"

text \<open>
  The package's error values. \<open>DecodeFailure\<close> stands for an error value handed back by
  \<open>gif.DecodeAll\<close> (its message as payload).
\<close>

datatype error =
    ErrImageDownloadFailed
  | ErrHeightNonMoT
  | ErrInvalidBoundsMoT
  | ErrOutOfBounds
  | errUnknownScaleMode
  | errUnknownDitheringMode
  | DecodeFailure string

text \<open>
  A Go call either returns its value, returns a non-nil \<open>error\<close>, or panics. A panic is
  either an explicit \<open>panic(err)\<close> of the package or a run-time panic of the language
  (index out of range, \<open>make\<close> with a negative size).
\<close>

datatype panic_value = PanicError error | IndexOutOfRange | MakeSizeOutOfRange

datatype 'a outcome = Return 'a | Error error | Panic panic_value

text \<open>
  \<open>ANSIpixel\<close>. The Go struct also holds \<open>source *ANSImage\<close>; \<open>New\<close> sets it to the image
  that owns the pixel, \<open>GetAt\<close> copies it and nothing else writes it, so the functions that
  read \<open>ap.source\<close> take the owning image as an argument here. The grid holds pointers to
  pixels (\<open>[][]*ANSIpixel\<close>); \<open>New\<close> allocates one pixel per cell and no pointer is ever
  copied into a second cell, so the grid is modelled by value.
\<close>

record ANSIpixel =
  Brightness :: "8 word"
  R :: "8 word"
  G :: "8 word"
  B :: "8 word"
  upper :: bool

type_synonym ANSIframe = "ANSIpixel list list"

record ANSImage =
  h :: int
  w :: int
  maxprocs :: int
  bgR :: "8 word"
  bgG :: "8 word"
  bgB :: "8 word"
  dithering :: DitheringMode
  frame :: "ANSIframe list"
  delay :: "int list"

text \<open>Slice indexing \<open>xs[i]\<close>: panics outside \<open>0 \<le> i < len(xs)\<close>.\<close>

definition index :: "'a list \<Rightarrow> int \<Rightarrow> 'a option" where
  "index xs i = (if 0 \<le> i \<and> i < int (length xs) then Some (xs ! nat i) else None)"

text \<open>The cell \<open>ai.frame[frame][y][x]\<close>, \<open>None\<close> where one of the three indexings panics.\<close>

definition cell :: "ANSImage \<Rightarrow> int \<Rightarrow> int \<Rightarrow> int \<Rightarrow> ANSIpixel option" where
  "cell ai fr y x =
     (case index (frame ai) fr of
        None \<Rightarrow> None
      | Some f \<Rightarrow> (case index f y of None \<Rightarrow> None | Some row \<Rightarrow> index row x))"

section \<open>Text encoding of one pixel\<close>

definition lowerHalfBlock :: string where
  "lowerHalfBlock = [CHR 0xE2, CHR 0x96, CHR 0x84]"

definition fullBlock :: string where
  "fullBlock = [CHR 0xE2, CHR 0x96, CHR 0x88]"

definition darkShadeBlock :: string where
  "darkShadeBlock = [CHR 0xE2, CHR 0x96, CHR 0x93]"

definition mediumShadeBlock :: string where
  "mediumShadeBlock = [CHR 0xE2, CHR 0x96, CHR 0x92]"

definition lightShadeBlock :: string where
  "lightShadeBlock = [CHR 0xE2, CHR 0x96, CHR 0x91]"

definition backslash033 :: string where
  "backslash033 = [CHR 0x1B]"

definition backslashN :: string where
  "backslashN = [CHR 0x0A]"

text \<open>The verb \<open>%d\<close> of \<open>fmt.Sprintf\<close> on an unsigned value: its decimal digits.\<close>

fun decimal :: "nat \<Rightarrow> string" where
  "decimal n =
     (if n < 10 then [''0123456789'' ! n]
      else decimal (n div 10) @ [''0123456789'' ! (n mod 10)])"

declare decimal.simps [simp del]

definition fmt_d :: "8 word \<Rightarrow> string" where
  "fmt_d v = decimal (unat v)"

text \<open>\<open>fmt.Sprintf("%s[48;2;%d;%d;%dm", ESC, r, g, b)\<close> and its foreground twin.\<close>

definition bgEscape :: "8 word \<Rightarrow> 8 word \<Rightarrow> 8 word \<Rightarrow> string" where
  "bgEscape r g b =
     backslash033 @ ''[48;2;'' @ fmt_d r @ '';'' @ fmt_d g @ '';'' @ fmt_d b @ ''m''"

definition fgEscape :: "8 word \<Rightarrow> 8 word \<Rightarrow> 8 word \<Rightarrow> string" where
  "fgEscape r g b =
     backslash033 @ ''[38;2;'' @ fmt_d r @ '';'' @ fmt_d g @ '';'' @ fmt_d b @ ''m''"

text \<open>The two \<open>switch bri := ap.Brightness; { case bri > ... }\<close> ladders, first match wins.\<close>

definition blockGlyph :: "8 word \<Rightarrow> string" where
  "blockGlyph bri =
     (if bri > 204 then fullBlock
      else if bri > 152 then darkShadeBlock
      else if bri > 100 then mediumShadeBlock
      else if bri > 48 then lightShadeBlock
      else '' '')"

definition charGlyph :: "8 word \<Rightarrow> string" where
  "charGlyph bri =
     (if bri > 230 then ''#''
      else if bri > 207 then ''&''
      else if bri > 184 then ''$''
      else if bri > 161 then ''X''
      else if bri > 138 then ''x''
      else if bri > 115 then ''=''
      else if bri > 92 then ''+''
      else if bri > 69 then '';''
      else if bri > 46 then '':''
      else if bri > 23 then ''.''
      else '' '')"

text \<open>
  The closing \<open>fmt.Sprintf("%s%s[38;2;%d;%d;%dm%s", bgColorStr, ESC, R, G, B, block)\<close> of the
  dithering branch, \<open>bgColorStr\<close> being the image's background escape or empty.
\<close>

definition ditheredText :: "ANSImage \<Rightarrow> ANSIpixel \<Rightarrow> bool \<Rightarrow> string \<Rightarrow> string" where
  "ditheredText src ap disableBgColor block =
     (let bgColorStr = (if disableBgColor then []
                        else bgEscape (bgR src) (bgG src) (bgB src))
      in bgColorStr @ fgEscape (R ap) (G ap) (B ap) @ block)"

text \<open>\<open>(*ANSIpixel).RenderExt\<close>, with \<open>src\<close> for \<open>ap.source\<close>.\<close>

definition ANSIpixel_RenderExt :: "ANSImage \<Rightarrow> ANSIpixel \<Rightarrow> bool \<Rightarrow> string outcome" where
  "ANSIpixel_RenderExt src ap disableBgColor =
     (if dithering src = NoDithering then
        Return (if upper ap then bgEscape (R ap) (G ap) (B ap)
                else fgEscape (R ap) (G ap) (B ap) @ lowerHalfBlock)
      else if dithering src = DitheringWithBlocks then
        Return (ditheredText src ap disableBgColor (blockGlyph (Brightness ap)))
      else if dithering src = DitheringWithChars then
        Return (ditheredText src ap disableBgColor (charGlyph (Brightness ap)))
      else Panic (PanicError errUnknownDitheringMode))"

section \<open>The image: construction and cell access\<close>

text \<open>A \<open>color.Color\<close> is used through \<open>RGBA()\<close> only: its four \<open>uint32\<close> results.\<close>

type_synonym Color = "32 word \<times> 32 word \<times> 32 word \<times> 32 word"

text \<open>The closure \<open>newFrame\<close> of \<open>New\<close>: \<open>h\<close> rows of \<open>w\<close> fresh black pixels.\<close>

definition newPixel :: "DitheringMode \<Rightarrow> int \<Rightarrow> ANSIpixel" where
  "newPixel dm y =
     \<lparr>Brightness = 0, R = 0, G = 0, B = 0,
      upper = (dm = NoDithering \<and> y smod 2 = 0)\<rparr>"

definition newFrame :: "int \<Rightarrow> int \<Rightarrow> DitheringMode \<Rightarrow> ANSIframe" where
  "newFrame hh ww dm =
     map (\<lambda>y. map (\<lambda>x. newPixel dm (int y)) [0..<nat ww]) [0..<nat hh]"

definition New :: "int \<Rightarrow> int \<Rightarrow> int \<Rightarrow> Color \<Rightarrow> DitheringMode \<Rightarrow> ANSImage outcome" where
  "New hh ww frameCount bg dm =
     (if dm = NoDithering \<and> hh smod 2 \<noteq> 0 then Error ErrHeightNonMoT
      else if hh < 2 \<or> ww < 2 then Error ErrInvalidBoundsMoT
      else if frameCount < 0 then Panic MakeSizeOutOfRange
      else (case bg of (r, g, b, a) \<Rightarrow>
        Return \<lparr>h = hh, w = ww, maxprocs = 1,
                bgR = ucast r, bgG = ucast g, bgB = ucast b,
                dithering = dm,
                frame = replicate (nat frameCount) (newFrame hh ww dm),
                delay = replicate (nat frameCount) 0\<rparr>))"

definition FrameCount :: "ANSImage \<Rightarrow> int" where
  "FrameCount ai = int (length (frame ai))"

definition FrameDelay :: "ANSImage \<Rightarrow> int \<Rightarrow> int outcome" where
  "FrameDelay ai fr =
     (case index (delay ai) fr of None \<Rightarrow> Panic IndexOutOfRange | Some d \<Rightarrow> Return d)"

definition SetMaxProcs :: "ANSImage \<Rightarrow> int \<Rightarrow> ANSImage" where
  "SetMaxProcs ai m = ai\<lparr>maxprocs := m\<rparr>"

text \<open>Storing a pixel value into the cell \<open>ai.frame[fr][y][x]\<close> (indices already checked).\<close>

definition putCell :: "ANSImage \<Rightarrow> int \<Rightarrow> int \<Rightarrow> int \<Rightarrow> ANSIpixel \<Rightarrow> ANSImage" where
  "putCell ai fr y x p =
     ai\<lparr>frame := (frame ai)[nat fr :=
           (frame ai ! nat fr)[nat y := (frame ai ! nat fr ! nat y)[nat x := p]]]\<rparr>"

text \<open>
  \<open>SetAt\<close> mutates the receiver and returns an \<open>error\<close>. The model returns the image after
  the call together with the returned error (\<open>None\<close> for \<open>nil\<close>). The first of its five
  assignments indexes \<open>ai.frame[frame][y][x]\<close> and panics before anything is written when
  an index is out of range.
\<close>

definition SetAt ::
  "ANSImage \<Rightarrow> int \<Rightarrow> int \<Rightarrow> int \<Rightarrow> 8 word \<Rightarrow> 8 word \<Rightarrow> 8 word \<Rightarrow> 8 word
     \<Rightarrow> (ANSImage \<times> error option) outcome" where
  "SetAt ai fr y x r g b brightness =
     (if y \<ge> 0 \<and> y < h ai \<and> x \<ge> 0 \<and> x < w ai then
        (case cell ai fr y x of
           None \<Rightarrow> Panic IndexOutOfRange
         | Some p \<Rightarrow>
             Return (putCell ai fr y x
                       (p\<lparr>R := r, G := g, B := b, Brightness := brightness,
                          upper := (dithering ai = NoDithering \<and> y smod 2 = 0)\<rparr>),
                     None))
      else Return (ai, Some ErrOutOfBounds))"

definition GetAt :: "ANSImage \<Rightarrow> int \<Rightarrow> int \<Rightarrow> int \<Rightarrow> ANSIpixel outcome" where
  "GetAt ai fr y x =
     (if y \<ge> 0 \<and> y < h ai \<and> x \<ge> 0 \<and> x < w ai then
        (case cell ai fr y x of
           None \<Rightarrow> Panic IndexOutOfRange
         | Some p \<Rightarrow>
             Return \<lparr>Brightness = Brightness p, R = R p, G = G p, B = B p, upper = upper p\<rparr>)
      else Error ErrOutOfBounds)"

text \<open>
  The images a client of the package can hold: the fields are unexported, so an image
  comes from \<open>New\<close> and changes only through \<open>SetAt\<close>, \<open>SetMaxProcs\<close> and the store
  \<open>ansimage.delay[frame] = d\<close> that \<open>createANSImage\<close> makes on the image it builds.
\<close>

inductive reachable :: "ANSImage \<Rightarrow> bool" where
  reach_New: "New hh ww n bg dm = Return ai \<Longrightarrow> reachable ai"
| reach_SetAt: "reachable ai \<Longrightarrow> SetAt ai fr y x r g b bri = Return (ai', e) \<Longrightarrow> reachable ai'"
| reach_SetMaxProcs: "reachable ai \<Longrightarrow> reachable (SetMaxProcs ai m)"
| reach_delay: "reachable ai \<Longrightarrow> 0 \<le> fr \<Longrightarrow> fr < int (length (delay ai)) \<Longrightarrow>
     reachable (ai\<lparr>delay := (delay ai)[nat fr := d]\<rparr>)"

section \<open>Rendering a frame\<close>

text \<open>Sequencing of calls that may fail: the first error or panic ends the computation.\<close>

fun andThen :: "'a outcome \<Rightarrow> ('a \<Rightarrow> 'b outcome) \<Rightarrow> 'b outcome" where
  "andThen (Return v) k = k v"
| "andThen (Error e) k = Error e"
| "andThen (Panic p) k = Panic p"

text \<open>\<open>ai.frame[frame][y][x].RenderExt(disableBgColor)\<close>.\<close>

definition renderCell :: "ANSImage \<Rightarrow> int \<Rightarrow> bool \<Rightarrow> int \<Rightarrow> int \<Rightarrow> string outcome" where
  "renderCell ai fr disableBgColor y x =
     (case cell ai fr y x of
        None \<Rightarrow> Panic IndexOutOfRange
      | Some ap \<Rightarrow> ANSIpixel_RenderExt ai ap disableBgColor)"

text \<open>
  The body of the goroutine of the branch without dithering, called with \<open>(r, 2*r)\<close>: the
  loop over \<open>x\<close> appends the upper pixel of row \<open>y\<close> and the lower pixel of row \<open>y+1\<close>, then
  the reset escape and the newline close the row. A panic in a goroutine ends the
  program, so it is the outcome of the whole call.
\<close>

function rowPairLoop ::
  "ANSImage \<Rightarrow> int \<Rightarrow> bool \<Rightarrow> int \<Rightarrow> int \<Rightarrow> string \<Rightarrow> string outcome" where
  "rowPairLoop ai fr disableBgColor y x str =
     (if x < w ai then
        andThen (renderCell ai fr disableBgColor y x) (\<lambda>up.
        andThen (renderCell ai fr disableBgColor (y + 1) x) (\<lambda>lo.
          rowPairLoop ai fr disableBgColor y (x + 1) (str @ up @ lo)))
      else Return (str @ backslash033 @ ''[0m'' @ backslashN))"
  by pat_completeness auto
termination
  by (relation "measure (\<lambda>(ai, fr, d, y, x, str). nat (w ai - x))") auto

declare rowPairLoop.simps [simp del]

definition renderRowPair :: "ANSImage \<Rightarrow> int \<Rightarrow> bool \<Rightarrow> int \<Rightarrow> string outcome" where
  "renderRowPair ai fr disableBgColor y = rowPairLoop ai fr disableBgColor y 0 []"

text \<open>The body of the goroutine of the dithering branch: one grid row.\<close>

function rowLoop ::
  "ANSImage \<Rightarrow> int \<Rightarrow> bool \<Rightarrow> int \<Rightarrow> int \<Rightarrow> string \<Rightarrow> string outcome" where
  "rowLoop ai fr disableBgColor y x str =
     (if x < w ai then
        andThen (renderCell ai fr disableBgColor y x) (\<lambda>c.
          rowLoop ai fr disableBgColor y (x + 1) (str @ c))
      else Return (str @ backslash033 @ ''[0m'' @ backslashN))"
  by pat_completeness auto
termination
  by (relation "measure (\<lambda>(ai, fr, d, y, x, str). nat (w ai - x))") auto

declare rowLoop.simps [simp del]

definition renderRow :: "ANSImage \<Rightarrow> int \<Rightarrow> bool \<Rightarrow> int \<Rightarrow> string outcome" where
  "renderRow ai fr disableBgColor y = rowLoop ai fr disableBgColor y 0 []"

text \<open>
  One window of the branch without dithering. The first inner loop
  \<open>for n, r := 0, y+1; n <= maxprocs && 2*r+1 < h; n, r = n+1, y+n+1\<close> starts a goroutine per
  iteration; the tuple assignment evaluates \<open>y+n+1\<close> with the old \<open>n\<close>. Each goroutine sends
  \<open>renderData{row: r, render: str}\<close>; \<open>sent\<close> lists what is sent, in the order of the
  starts.
\<close>

function spawnRowPairs ::
  "ANSImage \<Rightarrow> int \<Rightarrow> bool \<Rightarrow> int \<Rightarrow> int \<Rightarrow> int \<Rightarrow> (int \<times> string) list
     \<Rightarrow> (int \<times> string) list outcome" where
  "spawnRowPairs ai fr disableBgColor y n r sent =
     (if n \<le> maxprocs ai \<and> 2 * r + 1 < h ai then
        andThen (renderRowPair ai fr disableBgColor (2 * r)) (\<lambda>str.
          spawnRowPairs ai fr disableBgColor y (n + 1) (y + n + 1) (sent @ [(r, str)]))
      else Return sent)"
  by pat_completeness auto
termination
  by (relation "measure (\<lambda>(ai, fr, d, y, n, r, sent). nat (maxprocs ai + 1 - n))") auto

declare spawnRowPairs.simps [simp del]

text \<open>The same loop of the dithering branch: \<open>for n, r := 0, y; n <= maxprocs && r+1 < h; ...\<close>.\<close>

function spawnRows ::
  "ANSImage \<Rightarrow> int \<Rightarrow> bool \<Rightarrow> int \<Rightarrow> int \<Rightarrow> int \<Rightarrow> (int \<times> string) list
     \<Rightarrow> (int \<times> string) list outcome" where
  "spawnRows ai fr disableBgColor y n r sent =
     (if n \<le> maxprocs ai \<and> r + 1 < h ai then
        andThen (renderRow ai fr disableBgColor r) (\<lambda>str.
          spawnRows ai fr disableBgColor y (n + 1) (y + n + 1) (sent @ [(r, str)]))
      else Return sent)"
  by pat_completeness auto
termination
  by (relation "measure (\<lambda>(ai, fr, d, y, n, r, sent). nat (maxprocs ai + 1 - n))") auto

declare spawnRows.simps [simp del]

text \<open>
  The second inner loop has the header of the first, over variables nothing changes in
  between, so it receives once per goroutine started: every value sent is stored with
  \<open>rows[data.row] = data.render\<close>. Values arrive in the order the scheduler produces them;
  a row's text is a function of the grid alone, which no goroutine writes, so two values
  for one row carry the same text and the order of arrival does not show in \<open>rows\<close>
  (lemma \<open>collect_any_order\<close> below). The model stores them in the order of the starts.
\<close>

fun collect :: "string list \<Rightarrow> (int \<times> string) list \<Rightarrow> string list outcome" where
  "collect rows [] = Return rows"
| "collect rows ((r, str) # ds) =
     (if 0 \<le> r \<and> r < int (length rows) then collect (rows[nat r := str]) ds
      else Panic IndexOutOfRange)"

text \<open>
  The outer loop \<open>for y := 0; y < ai.h; y += ai.maxprocs\<close>. \<open>make(chan renderData, n)\<close>
  panics for a negative \<open>n\<close>. With \<open>maxprocs = 0\<close> the loop never advances, so the result is
  an \<open>option\<close>: \<open>None\<close> is the call that does not return. (\<open>y\<close> stays below \<open>2 * h\<close>, far
  from the range of a 64-bit \<open>int\<close> for any grid that fits in memory.)
\<close>

partial_function (option) noDitheringLoop ::
  "ANSImage \<Rightarrow> int \<Rightarrow> bool \<Rightarrow> int \<Rightarrow> string list \<Rightarrow> string list outcome option" where
  "noDitheringLoop ai fr disableBgColor y rows =
     (if y < h ai then
        (if maxprocs ai < 0 then Some (Panic MakeSizeOutOfRange)
         else (case andThen (spawnRowPairs ai fr disableBgColor y 0 (y + 1) []) (collect rows) of
                 Return rows' \<Rightarrow> noDitheringLoop ai fr disableBgColor (y + maxprocs ai) rows'
               | Error e \<Rightarrow> Some (Error e)
               | Panic p \<Rightarrow> Some (Panic p)))
      else Some (Return rows))"

partial_function (option) ditheringLoop ::
  "ANSImage \<Rightarrow> int \<Rightarrow> bool \<Rightarrow> int \<Rightarrow> string list \<Rightarrow> string list outcome option" where
  "ditheringLoop ai fr disableBgColor y rows =
     (if y < h ai then
        (if maxprocs ai < 0 then Some (Panic MakeSizeOutOfRange)
         else (case andThen (spawnRows ai fr disableBgColor y 0 y []) (collect rows) of
                 Return rows' \<Rightarrow> ditheringLoop ai fr disableBgColor (y + maxprocs ai) rows'
               | Error e \<Rightarrow> Some (Error e)
               | Panic p \<Rightarrow> Some (Panic p)))
      else Some (Return rows))"

text \<open>\<open>strings.Join(rows, "")\<close> of the loop's result.\<close>

definition joined :: "string list outcome option \<Rightarrow> string outcome option" where
  "joined res = map_option (\<lambda>out. andThen out (\<lambda>rows. Return (concat rows))) res"

text \<open>
  \<open>(*ANSImage).RenderExt\<close>. \<open>make([]string, n)\<close> panics for a negative \<open>n\<close>; Go's \<open>/\<close>
  truncates towards zero.
\<close>

definition RenderExt :: "ANSImage \<Rightarrow> int \<Rightarrow> bool \<Rightarrow> string outcome option" where
  "RenderExt ai fr disableBgColor =
     (if dithering ai = NoDithering then
        (if h ai sdiv 2 < 0 then Some (Panic MakeSizeOutOfRange)
         else joined (noDitheringLoop ai fr disableBgColor 0 (replicate (nat (h ai sdiv 2)) [])))
      else
        (if h ai < 0 then Some (Panic MakeSizeOutOfRange)
         else joined (ditheringLoop ai fr disableBgColor 0 (replicate (nat (h ai)) []))))"

section \<open>Building an image from a GIF\<close>

text \<open>
  Pixel buffers of package \<open>image\<close>: the rectangle \<open>Bounds()\<close>, whether the dynamic type is
  \<open>*image.RGBA\<close> (the type assertion of \<open>createANSImage\<close> asks), and the stored colour of
  each point as 8-bit R, G, B, A. \<open>RGBAAt\<close> and \<open>At\<close> give the zero colour outside the
  rectangle.
\<close>

record Rectangle =
  MinX :: int
  MinY :: int
  MaxX :: int
  MaxY :: int

type_synonym RGBA = "8 word \<times> 8 word \<times> 8 word \<times> 8 word"

record Image =
  Bounds :: Rectangle
  isRGBA :: bool
  pixels :: "int \<Rightarrow> int \<Rightarrow> RGBA"

definition RGBAAt :: "Image \<Rightarrow> int \<Rightarrow> int \<Rightarrow> RGBA" where
  "RGBAAt img x y =
     (if MinX (Bounds img) \<le> x \<and> x < MaxX (Bounds img) \<and>
         MinY (Bounds img) \<le> y \<and> y < MaxY (Bounds img)
      then pixels img x y else (0, 0, 0, 0))"

text \<open>\<open>image.NewRGBA(bounds)\<close>: a transparent black buffer; it panics on negative dimensions.\<close>

definition NewRGBA :: "Rectangle \<Rightarrow> Image outcome" where
  "NewRGBA bounds =
     (if MaxX bounds < MinX bounds \<or> MaxY bounds < MinY bounds then Panic MakeSizeOutOfRange
      else Return \<lparr>Bounds = bounds, isRGBA = True, pixels = (\<lambda>x y. (0, 0, 0, 0))\<rparr>)"

text \<open>\<open>gif.GIF\<close> as far as the package reads it, and the package's \<open>gifProxy\<close>.\<close>

record GIF =
  GIF_Image :: "Image list"
  GIF_Delay :: "int list"

record gifProxy =
  proxy_image :: "Image list"
  proxy_delay :: "int list"

datatype drawOp = Over | Src

text \<open>
  What the package calls in other libraries, none of it part of the source, taken as
  parameters:
  \<^item> \<open>draw.Draw(dst, bounds, src, image.ZP, op)\<close> as the buffer \<open>dst\<close> after the call, and
  the same call with \<open>image.NewUniform(c)\<close> as source;
  \<^item> \<open>imaging.Resize\<close>, \<open>imaging.Fill\<close> (centre anchor) and \<open>imaging.Fit\<close>, all with the
  Lanczos filter, called with \<open>(img, x, y)\<close>;
  \<^item> \<open>colorful.MakeColor(pixel)\<close> followed by \<open>Hsv()\<close>: the \<open>float64\<close> fields \<open>R\<close>, \<open>G\<close>,
  \<open>B\<close> of the colour and the third result \<open>v\<close> of \<open>Hsv\<close>;
  \<^item> the rounding of \<open>float64\<close> arithmetic: a \<open>float64\<close> is modelled by the real number it
  stands for, and \<open>float64_round\<close> maps the exact result of an operation to the result
  the machine returns.
\<close>

record externals =
  draw_Draw :: "Image \<Rightarrow> Rectangle \<Rightarrow> Image \<Rightarrow> drawOp \<Rightarrow> Image"
  draw_Uniform :: "Image \<Rightarrow> Rectangle \<Rightarrow> Color \<Rightarrow> drawOp \<Rightarrow> Image"
  imaging_Resize :: "Image \<Rightarrow> int \<Rightarrow> int \<Rightarrow> Image"
  imaging_Fill :: "Image \<Rightarrow> int \<Rightarrow> int \<Rightarrow> Image"
  imaging_Fit :: "Image \<Rightarrow> int \<Rightarrow> int \<Rightarrow> Image"
  colorful_RGBV :: "RGBA \<Rightarrow> real \<times> real \<times> real \<times> real"
  float64_round :: "real \<Rightarrow> real"

text \<open>
  What an \<open>io.Reader\<close> can deliver to the decoder: bytes that are no GIF (with the message
  of the decoder's error), or the encoding of a sequence of frames with their delays.
\<close>

datatype stream = Malformed string | Encoded GIF

text \<open>
  Modelled from the spec: \<open>gif.DecodeAll\<close> of Go's package \<open>image/gif\<close>, which the package
  imports and the source does not contain. Section 4.1 has the decoding fail "when the
  stream is malformed or contains zero frames"; otherwise it yields the frames and their
  delays.
\<close>

definition DecodeAll :: "stream \<Rightarrow> string + GIF" where
  "DecodeAll reader =
     (case reader of
        Malformed msg \<Rightarrow> Inl msg
      | Encoded g \<Rightarrow> if GIF_Image g = [] then Inl ''gif: missing image data'' else Inr g)"

text \<open>The loop \<open>for i := lo; i < hi; i++\<close> over a body that may return early or panic.\<close>

function forRange :: "int \<Rightarrow> int \<Rightarrow> (int \<Rightarrow> 's \<Rightarrow> 's outcome) \<Rightarrow> 's \<Rightarrow> 's outcome" where
  "forRange lo hi body s =
     (if lo < hi then andThen (body lo s) (forRange (lo + 1) hi body) else Return s)"
  by pat_completeness auto
termination
  by (relation "measure (\<lambda>(lo, hi, body, s). nat (hi - lo))") auto

declare forRange.simps [simp del]

text \<open>\<open>if err := ansimage.SetAt(...); err != nil { return nil, err }\<close>.\<close>

definition setOrReturn ::
  "ANSImage \<Rightarrow> int \<Rightarrow> int \<Rightarrow> int \<Rightarrow> 8 word \<Rightarrow> 8 word \<Rightarrow> 8 word \<Rightarrow> 8 word \<Rightarrow> ANSImage outcome" where
  "setOrReturn ai fr y x r g b brightness =
     andThen (SetAt ai fr y x r g b brightness)
       (\<lambda>(ai', err). case err of None \<Rightarrow> Return ai' | Some e \<Rightarrow> Error e)"

text \<open>
  The conversion \<open>uint8(f)\<close> of a \<open>float64\<close> truncates towards zero; for a value outside
  the range of \<open>uint8\<close> Go leaves the result to the implementation, here the low byte.
\<close>

definition uint8_of_float :: "real \<Rightarrow> 8 word" where
  "uint8_of_float f = word_of_int (if 0 \<le> f then \<lfloor>f\<rfloor> else \<lceil>f\<rceil>)"

text \<open>
  The loop over \<open>dy\<close> and the loop over \<open>dx\<close> inside it: the four sums over the
  32 pixels of the block of cell \<open>(y, x)\<close>, in the order they are visited, each
  \<open>+=\<close> a rounded addition.
\<close>

definition blockPoints :: "int \<Rightarrow> int \<Rightarrow> (int \<times> int) list" where
  "blockPoints y x =
     concat (map (\<lambda>dy. map (\<lambda>dx. (BlockSizeX * x + int dx, BlockSizeY * y + int dy))
                            [0..<nat BlockSizeX])
                 [0..<nat BlockSizeY])"

definition accumulate ::
  "externals \<Rightarrow> Image \<Rightarrow> real \<times> real \<times> real \<times> real \<Rightarrow> int \<times> int
     \<Rightarrow> real \<times> real \<times> real \<times> real" where
  "accumulate ext rgbaOut acc point =
     (case acc of (sumR, sumG, sumB, sumBri) \<Rightarrow>
      case point of (px, py) \<Rightarrow>
      case colorful_RGBV ext (RGBAAt rgbaOut px py) of (cR, cG, cB, v) \<Rightarrow>
        (float64_round ext (sumR + cR), float64_round ext (sumG + cG),
         float64_round ext (sumB + cB), float64_round ext (sumBri + v)))"

text \<open>\<open>uint8(sum/float64(pixelCount)*255.0 + 0.5)\<close> for each of the four sums: three rounded operations, then the cut.\<close>

definition average :: "externals \<Rightarrow> real \<Rightarrow> 8 word" where
  "average ext s =
     (let pixelCount = BlockSizeY * BlockSizeX
      in uint8_of_float
           (float64_round ext
              (float64_round ext (float64_round ext (s / real_of_int pixelCount) * 255)
               + 0.5)))"

definition quantizeBlock :: "externals \<Rightarrow> Image \<Rightarrow> int \<Rightarrow> int \<Rightarrow> RGBA" where
  "quantizeBlock ext rgbaOut y x =
     (case foldl (accumulate ext rgbaOut) (0, 0, 0, 0) (blockPoints y x) of
        (sumR, sumG, sumB, sumBri) \<Rightarrow>
          (average ext sumR, average ext sumG, average ext sumB, average ext sumBri))"

text \<open>The body of the loop over the cells, for one cell, in either mode.\<close>

definition quantizeCell ::
  "externals \<Rightarrow> DitheringMode \<Rightarrow> Image \<Rightarrow> int \<Rightarrow> int \<Rightarrow> int \<Rightarrow> ANSImage \<Rightarrow> ANSImage outcome" where
  "quantizeCell ext dm rgbaOut fr y x ai =
     (if dm = NoDithering then
        (case RGBAAt rgbaOut x y of (vR, vG, vB, vA) \<Rightarrow> setOrReturn ai fr y x vR vG vB 0)
      else
        (case quantizeBlock ext rgbaOut y x of (r, g, b, brightness) \<Rightarrow>
           setOrReturn ai fr y x r g b brightness))"

text \<open>The compositing at the head of the frame loop.\<close>

definition composite :: "externals \<Rightarrow> Color \<Rightarrow> Rectangle \<Rightarrow> Image \<Rightarrow> Image outcome" where
  "composite ext bg bounds img =
     (case bg of (r, g, b, a) \<Rightarrow>
        if a \<ge> 0xffff then
          andThen (NewRGBA bounds) (\<lambda>rgbaOut.
            Return (draw_Draw ext (draw_Uniform ext rgbaOut bounds bg Src) bounds img Over))
        else if isRGBA img then Return img
        else andThen (NewRGBA bounds) (\<lambda>rgbaOut. Return (draw_Draw ext rgbaOut bounds img Src)))"

text \<open>
  The statements of lines 573 to 579, run once in every iteration of the frame loop on
  the variables \<open>yMax\<close> and \<open>xMax\<close> declared before the loop. Go's \<open>%\<close> and \<open>/\<close> truncate.
\<close>

definition truncateBounds :: "DitheringMode \<Rightarrow> int \<times> int \<Rightarrow> int \<times> int" where
  "truncateBounds dm m =
     (case m of (yMax, xMax) \<Rightarrow>
        if dm = NoDithering then (yMax - yMax smod 2, xMax)
        else (yMax sdiv BlockSizeY, xMax sdiv BlockSizeX))"

text \<open>
  One iteration of \<open>for frame, img := range g.image\<close>; the state is the image under
  construction with the current \<open>yMax\<close> and \<open>xMax\<close>.
\<close>

definition frameStep ::
  "externals \<Rightarrow> Color \<Rightarrow> DitheringMode \<Rightarrow> Rectangle \<Rightarrow> int list \<Rightarrow> int \<Rightarrow> Image
     \<Rightarrow> ANSImage \<times> int \<times> int \<Rightarrow> (ANSImage \<times> int \<times> int) outcome" where
  "frameStep ext bg dm bounds delays fr img st =
     (case st of (ai, yMax, xMax) \<Rightarrow>
      case index delays fr of
        None \<Rightarrow> Panic IndexOutOfRange
      | Some d \<Rightarrow>
          (case index (delay ai) fr of
             None \<Rightarrow> Panic IndexOutOfRange
           | Some old \<Rightarrow>
               andThen (composite ext bg bounds img) (\<lambda>rgbaOut.
                 case truncateBounds dm (yMax, xMax) of (yMax', xMax') \<Rightarrow>
                   andThen
                     (forRange (MinY bounds) yMax'
                        (\<lambda>y. forRange (MinX bounds) xMax' (quantizeCell ext dm rgbaOut fr y))
                        (ai\<lparr>delay := (delay ai)[nat fr := d]\<rparr>))
                     (\<lambda>ai'. Return (ai', yMax', xMax')))))"

fun frameLoop ::
  "externals \<Rightarrow> Color \<Rightarrow> DitheringMode \<Rightarrow> Rectangle \<Rightarrow> int list \<Rightarrow> int \<Rightarrow> Image list
     \<Rightarrow> ANSImage \<times> int \<times> int \<Rightarrow> (ANSImage \<times> int \<times> int) outcome" where
  "frameLoop ext bg dm bounds delays fr [] st = Return st"
| "frameLoop ext bg dm bounds delays fr (img # imgs) st =
     andThen (frameStep ext bg dm bounds delays fr img st)
       (frameLoop ext bg dm bounds delays (fr + 1) imgs)"

definition createANSImage ::
  "externals \<Rightarrow> gifProxy \<Rightarrow> Color \<Rightarrow> DitheringMode \<Rightarrow> ANSImage outcome" where
  "createANSImage ext g bg dm =
     (case proxy_image g of
        [] \<Rightarrow> Panic IndexOutOfRange
      | first # rest \<Rightarrow>
          (let bounds = Bounds first;
               yMax = MaxY bounds; xMax = MaxX bounds
           in andThen (New yMax xMax (int (length (proxy_image g))) bg dm) (\<lambda>ansimage.
              andThen (frameLoop ext bg dm bounds (proxy_delay g) 0 (proxy_image g)
                         (ansimage, yMax, xMax))
                (\<lambda>(ai, yMax', xMax'). Return ai))))"

text \<open>
  The frame loop of \<open>NewFromReader\<close>. Every frame is drawn over the one buffer \<open>img\<close>, and
  \<open>proxy.image[frame] = img\<close> stores the pointer to that buffer. The state is the buffer
  and \<open>proxy.delay\<close>.
\<close>

fun composeLoop ::
  "externals \<Rightarrow> Rectangle \<Rightarrow> int list \<Rightarrow> int \<Rightarrow> Image list \<Rightarrow> Image \<times> int list
     \<Rightarrow> (Image \<times> int list) outcome" where
  "composeLoop ext bounds gifDelay fr [] st = Return st"
| "composeLoop ext bounds gifDelay fr (palettedImg # rest) st =
     (case st of (img, delays) \<Rightarrow>
      case index gifDelay fr of
        None \<Rightarrow> Panic IndexOutOfRange
      | Some d \<Rightarrow>
          composeLoop ext bounds gifDelay (fr + 1) rest
            (draw_Draw ext img bounds palettedImg Over, delays[nat fr := d]))"

text \<open>
  \<open>NewFromReader\<close>. After the loop every entry of \<open>proxy.image\<close> is the same pointer, so
  each frame of the proxy shows the buffer as the last frame left it.
\<close>

definition NewFromReader ::
  "externals \<Rightarrow> stream \<Rightarrow> Color \<Rightarrow> DitheringMode \<Rightarrow> ANSImage outcome" where
  "NewFromReader ext reader bg dm =
     (case DecodeAll reader of
        Inl err \<Rightarrow> Error (DecodeFailure err)
      | Inr gifImage \<Rightarrow>
          (case GIF_Image gifImage of
             [] \<Rightarrow> Panic IndexOutOfRange
           | first # rest \<Rightarrow>
               andThen (NewRGBA (Bounds first)) (\<lambda>img.
               andThen (composeLoop ext (Bounds first) (GIF_Delay gifImage) 0 (GIF_Image gifImage)
                          (img, replicate (length (GIF_Delay gifImage)) 0))
                 (\<lambda>(img', delays).
                    createANSImage ext
                      \<lparr>proxy_image = replicate (length (GIF_Image gifImage)) img',
                       proxy_delay = delays\<rparr> bg dm))))"

text \<open>
  The frame loop of \<open>NewScaledFromReader\<close>: the scaling functions return a new image, stored
  as \<open>proxy.image[frame]\<close>; the \<open>switch\<close> on the scale mode runs in every iteration and its
  \<open>default\<close> panics. The state is the buffer, the proxy's images so far and its delays.
\<close>

fun scaleLoop ::
  "externals \<Rightarrow> ScaleMode \<Rightarrow> int \<Rightarrow> int \<Rightarrow> Rectangle \<Rightarrow> int list \<Rightarrow> int \<Rightarrow> Image list
     \<Rightarrow> Image \<times> Image list \<times> int list \<Rightarrow> (Image \<times> Image list \<times> int list) outcome" where
  "scaleLoop ext sm y x bounds gifDelay fr [] st = Return st"
| "scaleLoop ext sm y x bounds gifDelay fr (palettedImg # rest) st =
     (case st of (img, images, delays) \<Rightarrow>
      case index gifDelay fr of
        None \<Rightarrow> Panic IndexOutOfRange
      | Some d \<Rightarrow>
          (let img' = draw_Draw ext img bounds palettedImg Over;
               delays' = delays[nat fr := d]
           in if sm = ScaleModeResize then
                scaleLoop ext sm y x bounds gifDelay (fr + 1) rest
                  (img', images @ [imaging_Resize ext img' x y], delays')
              else if sm = ScaleModeFill then
                scaleLoop ext sm y x bounds gifDelay (fr + 1) rest
                  (img', images @ [imaging_Fill ext img' x y], delays')
              else if sm = ScaleModeFit then
                scaleLoop ext sm y x bounds gifDelay (fr + 1) rest
                  (img', images @ [imaging_Fit ext img' x y], delays')
              else Panic (PanicError errUnknownScaleMode)))"

definition NewScaledFromReader ::
  "externals \<Rightarrow> stream \<Rightarrow> int \<Rightarrow> int \<Rightarrow> Color \<Rightarrow> ScaleMode \<Rightarrow> DitheringMode
     \<Rightarrow> ANSImage outcome" where
  "NewScaledFromReader ext reader y x bg sm dm =
     (case DecodeAll reader of
        Inl err \<Rightarrow> Error (DecodeFailure err)
      | Inr gifImage \<Rightarrow>
          (case GIF_Image gifImage of
             [] \<Rightarrow> Panic IndexOutOfRange
           | first # rest \<Rightarrow>
               andThen (NewRGBA (Bounds first)) (\<lambda>img.
               andThen (scaleLoop ext sm y x (Bounds first) (GIF_Delay gifImage) 0
                          (GIF_Image gifImage)
                          (img, [], replicate (length (GIF_Delay gifImage)) 0))
                 (\<lambda>(img', images, delays).
                    createANSImage ext \<lparr>proxy_image = images, proxy_delay = delays\<rparr> bg dm))))"

section \<open>Invariants and sample inputs\<close>

text \<open>
  The shape every image built by \<open>New\<close> has and keeps: at least two rows and columns, a
  delay per frame, and every frame a grid of \<open>h\<close> rows of \<open>w\<close> cells.
\<close>

definition wellFormed :: "ANSImage \<Rightarrow> bool" where
  "wellFormed ai \<longleftrightarrow>
     2 \<le> h ai \<and> 2 \<le> w ai \<and> length (delay ai) = length (frame ai) \<and>
     (\<forall>i < length (frame ai). length (frame ai ! i) = nat (h ai) \<and>
        (\<forall>j < nat (h ai). length (frame ai ! i ! j) = nat (w ai)))"

text \<open>The role flag of every cell agrees with the dithering mode and the parity of its row.\<close>

definition roleFlags :: "ANSImage \<Rightarrow> bool" where
  "roleFlags ai \<longleftrightarrow>
     (\<forall>fr y x p. cell ai fr y x = Some p \<longrightarrow>
        upper p = (dithering ai = NoDithering \<and> even y))"

text \<open>
  Inputs for the concrete instances below: \<open>color.Black\<close> (the background of \<open>main.go\<close>),
  whose \<open>RGBA()\<close> is \<open>(0, 0, 0, 0xffff)\<close>; the image \<open>New(2, 2, 1, color.Black, dm)\<close>
  returns; and a pixel of colour (100, 150, 200).
\<close>

definition Black :: Color where
  "Black = (0, 0, 0, 0xffff)"

definition sampleImage :: "DitheringMode \<Rightarrow> ANSImage" where
  "sampleImage dm =
     \<lparr>h = 2, w = 2, maxprocs = 1, bgR = 0, bgG = 0, bgB = 0, dithering = dm,
      frame = [newFrame 2 2 dm], delay = [0]\<rparr>"

definition samplePixel :: "8 word \<Rightarrow> bool \<Rightarrow> ANSIpixel" where
  "samplePixel bri up = \<lparr>Brightness = bri, R = 100, G = 150, B = 200, upper = up\<rparr>"

text \<open>
  For describing the result of \<open>RenderExt\<close>: the text of terminal row \<open>r\<close> without
  dithering (rendered from grid rows \<open>2r\<close> and \<open>2r+1\<close>), the text of grid row \<open>r\<close> in a
  dithering mode, and a slice of \<open>n\<close> row texts of which those with an index from \<open>lo\<close> to
  \<open>hi\<close> are filled in and the others are still empty.
\<close>

definition rowPairText :: "ANSImage \<Rightarrow> int \<Rightarrow> bool \<Rightarrow> int \<Rightarrow> string" where
  "rowPairText ai fr d r = (case renderRowPair ai fr d (2 * r) of Return s \<Rightarrow> s | _ \<Rightarrow> [])"

definition rowText :: "ANSImage \<Rightarrow> int \<Rightarrow> bool \<Rightarrow> int \<Rightarrow> string" where
  "rowText ai fr d r = (case renderRow ai fr d r of Return s \<Rightarrow> s | _ \<Rightarrow> [])"

definition filledFrom :: "(int \<Rightarrow> string) \<Rightarrow> int \<Rightarrow> int \<Rightarrow> nat \<Rightarrow> string list" where
  "filledFrom T lo hi n =
     map (\<lambda>i. if lo \<le> int i \<and> int i \<le> hi then T (int i) else []) [0..<n]"

text \<open>
  For stating what the constructors check: the buffer of \<open>NewFromReader\<close> and
  \<open>NewScaledFromReader\<close> after the first frame \<open>p\<close> is drawn over it, and the image the
  \<open>switch\<close> of \<open>NewScaledFromReader\<close> stores for one of the three scale modes.
\<close>

definition firstComposed :: "externals \<Rightarrow> Image \<Rightarrow> Image" where
  "firstComposed ext p =
     draw_Draw ext \<lparr>Bounds = Bounds p, isRGBA = True, pixels = (\<lambda>x y. (0, 0, 0, 0))\<rparr>
       (Bounds p) p Over"

definition scaled :: "externals \<Rightarrow> ScaleMode \<Rightarrow> Image \<Rightarrow> int \<Rightarrow> int \<Rightarrow> Image" where
  "scaled ext sm img x y =
     (if sm = ScaleModeResize then imaging_Resize ext img x y
      else if sm = ScaleModeFill then imaging_Fill ext img x y
      else imaging_Fit ext img x y)"

text \<open>
  Stand-ins for the library functions, for the concrete instances: drawing copies the
  source's pixels; \<open>Resize\<close> and \<open>Fill\<close> set the rectangle to the target size; \<open>Fit\<close>
  returns a copy of an image that already fits the target and otherwise the largest
  size of the source's aspect ratio within it; the colour conversion is the one of an
  opaque pixel (channels over 255, \<open>v\<close> the largest channel); and the arithmetic is exact.
  On the uniform opaque frames used below this is what the libraries compute.
\<close>

definition sampleExternals :: externals where
  "sampleExternals =
     \<lparr>draw_Draw = (\<lambda>dst bounds src op. dst\<lparr>pixels := pixels src\<rparr>),
      draw_Uniform = (\<lambda>dst bounds c op.
         dst\<lparr>pixels := (\<lambda>x y. case c of (r, g, b, a) \<Rightarrow>
                 (ucast (drop_bit 8 r), ucast (drop_bit 8 g), ucast (drop_bit 8 b),
                  ucast (drop_bit 8 a)))\<rparr>),
      imaging_Resize = (\<lambda>img x y.
         img\<lparr>Bounds := \<lparr>MinX = 0, MinY = 0, MaxX = x, MaxY = y\<rparr>, isRGBA := False\<rparr>),
      imaging_Fill = (\<lambda>img x y.
         img\<lparr>Bounds := \<lparr>MinX = 0, MinY = 0, MaxX = x, MaxY = y\<rparr>, isRGBA := False\<rparr>),
      imaging_Fit = (\<lambda>img x y.
         let srcW = MaxX (Bounds img) - MinX (Bounds img);
             srcH = MaxY (Bounds img) - MinY (Bounds img)
         in if x \<le> 0 \<or> y \<le> 0 \<or> srcW \<le> 0 \<or> srcH \<le> 0 then
              img\<lparr>Bounds := \<lparr>MinX = 0, MinY = 0, MaxX = 0, MaxY = 0\<rparr>, isRGBA := False\<rparr>
            else if srcW \<le> x \<and> srcH \<le> y then
              img\<lparr>Bounds := \<lparr>MinX = 0, MinY = 0, MaxX = srcW, MaxY = srcH\<rparr>,
                  isRGBA := False\<rparr>
            else if x * srcH < srcW * y then
              img\<lparr>Bounds := \<lparr>MinX = 0, MinY = 0, MaxX = x, MaxY = (x * srcH) div srcW\<rparr>,
                  isRGBA := False\<rparr>
            else
              img\<lparr>Bounds := \<lparr>MinX = 0, MinY = 0, MaxX = (y * srcW) div srcH, MaxY = y\<rparr>,
                  isRGBA := False\<rparr>),
      colorful_RGBV = (\<lambda>c. case c of (r, g, b, a) \<Rightarrow>
         (real (unat r) / 255, real (unat g) / 255, real (unat b) / 255,
          real (max (unat r) (max (unat g) (unat b))) / 255)),
      float64_round = (\<lambda>v. v)\<rparr>"

text \<open>A frame of \<open>hh\<close> by \<open>ww\<close> opaque pixels of one colour, and GIFs of such frames.\<close>

definition uniformFrame :: "int \<Rightarrow> int \<Rightarrow> RGBA \<Rightarrow> Image" where
  "uniformFrame hh ww c =
     \<lparr>Bounds = \<lparr>MinX = 0, MinY = 0, MaxX = ww, MaxY = hh\<rparr>, isRGBA = False,
      pixels = (\<lambda>x y. c)\<rparr>"

definition white :: RGBA where
  "white = (255, 255, 255, 255)"

text \<open>
  A GIF of two identical frames, 4 pixels wide and 8 high, all white: one block of the
  dithering modes. \<open>whiteBuffer\<close> is the RGBA buffer the frames are composed into,
  \<open>blankImage\<close> the image \<open>New(8, 4, 2, color.Black, DitheringWithBlocks)\<close> returns, and
  \<open>firstFrameDone\<close> that image after the frame loop has handled frame 0.
\<close>

definition twoWhiteFrames :: GIF where
  "twoWhiteFrames =
     \<lparr>GIF_Image = [uniformFrame 8 4 white, uniformFrame 8 4 white], GIF_Delay = [10, 10]\<rparr>"

definition whiteBuffer :: Image where
  "whiteBuffer =
     \<lparr>Bounds = \<lparr>MinX = 0, MinY = 0, MaxX = 4, MaxY = 8\<rparr>, isRGBA = True,
      pixels = (\<lambda>x y. white)\<rparr>"

definition blankImage :: ANSImage where
  "blankImage =
     \<lparr>h = 8, w = 4, maxprocs = 1, bgR = 0, bgG = 0, bgB = 0,
      dithering = DitheringWithBlocks,
      frame = replicate 2 (newFrame 8 4 DitheringWithBlocks), delay = [0, 0]\<rparr>"

definition firstFrameDone :: ANSImage where
  "firstFrameDone =
     putCell (blankImage\<lparr>delay := [10, 0]\<rparr>) 0 0 0
       \<lparr>Brightness = 255, R = 255, G = 255, B = 255, upper = False\<rparr>"

text \<open>A GIF of one white frame of 2 by 2 pixels.\<close>

definition oneSmallFrame :: GIF where
  "oneSmallFrame = \<lparr>GIF_Image = [uniformFrame 2 2 white], GIF_Delay = [10]\<rparr>"

text \<open>
  The image built from that frame without dithering: every cell white, the upper row
  flagged as such.
\<close>

definition smallWhiteImage :: ANSImage where
  "smallWhiteImage =
     \<lparr>h = 2, w = 2, maxprocs = 1, bgR = 0, bgG = 0, bgB = 0, dithering = NoDithering,
      frame = [[[\<lparr>Brightness = 0, R = 255, G = 255, B = 255, upper = True\<rparr>,
                 \<lparr>Brightness = 0, R = 255, G = 255, B = 255, upper = True\<rparr>],
                [\<lparr>Brightness = 0, R = 255, G = 255, B = 255, upper = False\<rparr>,
                 \<lparr>Brightness = 0, R = 255, G = 255, B = 255, upper = False\<rparr>]]],
      delay = [10]\<rparr>"

text \<open>
  For the averaging: a buffer 8 pixels wide and 16 high, white except for the block of
  cell \<open>(1, 1)\<close> (columns 4 to 7, rows 8 to 15), whose 32 pixels are opaque
  RGB (100, 150, 200).
\<close>

definition patchBuffer :: Image where
  "patchBuffer =
     \<lparr>Bounds = \<lparr>MinX = 0, MinY = 0, MaxX = 8, MaxY = 16\<rparr>, isRGBA = True,
      pixels = (\<lambda>x y. if 4 \<le> x \<and> 8 \<le> y then (100, 150, 200, 255) else white)\<rparr>"

section \<open>Properties of the grid\<close>

lemma cell_wellFormed:
  assumes "wellFormed ai"
  shows "cell ai fr y x =
     (if 0 \<le> fr \<and> fr < int (length (frame ai)) \<and> 0 \<le> y \<and> y < h ai \<and> 0 \<le> x \<and> x < w ai
      then Some (frame ai ! nat fr ! nat y ! nat x) else None)"
proof (cases "0 \<le> fr \<and> fr < int (length (frame ai))")
  case False
  then show ?thesis by (auto simp: cell_def index_def)
next
  case True
  then have fr: "nat fr < length (frame ai)" by linarith
  with assms have lenf: "length (frame ai ! nat fr) = nat (h ai)"
    by (simp add: wellFormed_def)
  show ?thesis
  proof (cases "0 \<le> y \<and> y < h ai")
    case False
    with True lenf show ?thesis by (auto simp: cell_def index_def)
  next
    case y: True
    then have "nat y < nat (h ai)" by linarith
    with assms fr have "length (frame ai ! nat fr ! nat y) = nat (w ai)"
      by (simp add: wellFormed_def)
    with True y lenf show ?thesis by (auto simp: cell_def index_def)
  qed
qed

lemma New_wellFormed: "New hh ww n bg dm = Return ai \<Longrightarrow> wellFormed ai"
  by (auto simp: New_def wellFormed_def newFrame_def split: if_splits prod.splits)

lemma putCell_wellFormed:
  assumes "wellFormed ai"
  shows "wellFormed (putCell ai fr y x p)"
proof -
  let ?F = "frame ai"
  let ?F' = "?F[nat fr := (?F ! nat fr)[nat y := (?F ! nat fr ! nat y)[nat x := p]]]"
  have "length (?F' ! i) = nat (h ai) \<and> (\<forall>j < nat (h ai). length (?F' ! i ! j) = nat (w ai))"
    if i: "i < length ?F" for i
  proof (cases "i = nat fr")
    case False
    with i assms show ?thesis by (simp add: wellFormed_def)
  next
    case True
    from i assms have l: "length (?F ! i) = nat (h ai)"
      and r: "\<And>j. j < nat (h ai) \<Longrightarrow> length (?F ! i ! j) = nat (w ai)"
      by (simp_all add: wellFormed_def)
    have "?F' ! i = (?F ! i)[nat y := (?F ! i ! nat y)[nat x := p]]"
      using i True by simp
    moreover have "length (((?F ! i)[nat y := (?F ! i ! nat y)[nat x := p]]) ! j) = nat (w ai)"
      if "j < nat (h ai)" for j
      using that l r[of j] r[of "nat y"] by (cases "j = nat y") simp_all
    ultimately show ?thesis using l by simp
  qed
  with assms show ?thesis by (simp add: wellFormed_def putCell_def)
qed

lemma SetAt_wellFormed: "wellFormed ai \<Longrightarrow> SetAt ai fr y x r g b bri = Return (ai', e) \<Longrightarrow> wellFormed ai'"
  by (auto simp: SetAt_def putCell_wellFormed split: if_splits option.splits)

lemma reachable_wellFormed: "reachable ai \<Longrightarrow> wellFormed ai"
proof (induction rule: reachable.induct)
  case (reach_New hh ww n bg dm ai)
  then show ?case by (rule New_wellFormed)
next
  case (reach_SetAt ai fr y x r g b bri ai' e)
  then show ?case by (blast intro: SetAt_wellFormed)
next
  case (reach_SetMaxProcs ai m)
  then show ?case by (simp add: wellFormed_def SetMaxProcs_def)
next
  case (reach_delay ai fr d)
  then show ?case by (simp add: wellFormed_def)
qed

lemma putCell_fields [simp]:
  "h (putCell ai fr y x p) = h ai" "w (putCell ai fr y x p) = w ai"
  "dithering (putCell ai fr y x p) = dithering ai" "delay (putCell ai fr y x p) = delay ai"
  "length (frame (putCell ai fr y x p)) = length (frame ai)"
  by (simp_all add: putCell_def)


lemma cell_putCell:
  assumes "cell ai fr y x = Some q"
  shows "cell (putCell ai fr y x p) fr' y' x' =
           (if fr' = fr \<and> y' = y \<and> x' = x then Some p else cell ai fr' y' x')"
proof -
  let ?F = "frame ai"
  from assms have rng: "0 \<le> fr" "nat fr < length ?F" "0 \<le> y" "nat y < length (?F ! nat fr)"
    "0 \<le> x" "nat x < length (?F ! nat fr ! nat y)"
    by (auto simp: cell_def index_def split: if_splits option.splits)
  show ?thesis
  proof (cases "fr' = fr")
    case False
    then have "0 \<le> fr' \<Longrightarrow> nat fr' \<noteq> nat fr" using rng by auto
    then show ?thesis using False by (auto simp: cell_def index_def putCell_def)
  next
    case same_fr: True
    show ?thesis
    proof (cases "y' = y")
      case False
      then have "0 \<le> y' \<Longrightarrow> nat y' \<noteq> nat y" using rng by auto
      then show ?thesis using False same_fr rng by (auto simp: cell_def index_def putCell_def)
    next
      case same_y: True
      show ?thesis
      proof (cases "x' = x")
        case False
        then have "0 \<le> x' \<Longrightarrow> nat x' \<noteq> nat x" using rng by auto
        then show ?thesis using False same_fr same_y rng
          by (auto simp: cell_def index_def putCell_def)
      next
        case True
        then show ?thesis using same_fr same_y rng
          by (auto simp: cell_def index_def putCell_def)
      qed
    qed
  qed
qed

lemma SetAt_in_grid:
  assumes "wellFormed ai" "0 \<le> fr" "fr < FrameCount ai" "0 \<le> y" "y < h ai" "0 \<le> x" "x < w ai"
  shows "SetAt ai fr y x r g b bri =
     Return (putCell ai fr y x
       ((frame ai ! nat fr ! nat y ! nat x)\<lparr>R := r, G := g, B := b, Brightness := bri,
           upper := (dithering ai = NoDithering \<and> y smod 2 = 0)\<rparr>), None)"
  using assms by (simp add: SetAt_def cell_wellFormed FrameCount_def)

lemma smod_2_even: "(y smod 2 = 0) = even (y::int)"
  by (auto simp: signed_modulo_int_def sgn_if)

lemma New_roleFlags: "New hh ww n bg dm = Return ai \<Longrightarrow> roleFlags ai"
  by (auto simp: New_def roleFlags_def cell_def index_def newFrame_def newPixel_def
      smod_2_even even_nat_iff split: if_splits prod.splits)

lemma SetAt_roleFlags:
  assumes "roleFlags ai" "SetAt ai fr y x r g b bri = Return (ai', e)"
  shows "roleFlags ai'"
proof (cases "y \<ge> 0 \<and> y < h ai \<and> x \<ge> 0 \<and> x < w ai")
  case False
  with assms show ?thesis by (simp add: SetAt_def)
next
  case True
  with assms(2) obtain q where q: "cell ai fr y x = Some q"
    and ai': "ai' = putCell ai fr y x (q\<lparr>R := r, G := g, B := b, Brightness := bri,
                          upper := (dithering ai = NoDithering \<and> y smod 2 = 0)\<rparr>)"
    by (auto simp: SetAt_def split: option.splits)
  have d: "dithering ai' = dithering ai" by (simp add: ai')
  show ?thesis
    unfolding roleFlags_def d
  proof (intro allI impI)
    fix fr' y' x' p
    assume "cell ai' fr' y' x' = Some p"
    then show "upper p = (dithering ai = NoDithering \<and> even y')"
      using assms(1) unfolding ai' cell_putCell[OF q]
      by (auto simp: roleFlags_def smod_2_even split: if_splits)
  qed
qed

lemma New_sample: "New 2 2 1 Black dm = Return (sampleImage dm)"
  by (simp add: New_def Black_def sampleImage_def signed_modulo_int_def)

lemma reachable_sample: "reachable (sampleImage dm)"
  by (rule reach_New[OF New_sample])

lemma cell_sample:
  "cell (sampleImage dm) 0 0 0 = Some (newPixel dm 0)"
  "cell (sampleImage dm) 0 0 1 = Some (newPixel dm 0)"
  "cell (sampleImage dm) 0 1 0 = Some (newPixel dm 1)"
  "cell (sampleImage dm) 0 1 1 = Some (newPixel dm 1)"
  by (simp_all add: cell_def index_def sampleImage_def newFrame_def upt_rec[of 0]
      upt_rec[of 1] upt_rec[of 2] eval_nat_numeral)

section \<open>Properties of the text encoding\<close>

lemma blockGlyph_tiers:
  "blockGlyph bri =
     (if 205 \<le> unat bri then fullBlock
      else if 153 \<le> unat bri then darkShadeBlock
      else if 101 \<le> unat bri then mediumShadeBlock
      else if 49 \<le> unat bri then lightShadeBlock
      else '' '')"
  by (simp add: blockGlyph_def word_less_nat_alt)

lemma charGlyph_tiers:
  "charGlyph bri = [''#&$Xx=+;:. '' ! (10 - min 10 ((unat bri - 1) div 23))]"
proof -
  define n where "n = unat bri"
  have c: "charGlyph bri =
     (if n > 230 then ''#''
      else if n > 207 then ''&''
      else if n > 184 then ''$''
      else if n > 161 then ''X''
      else if n > 138 then ''x''
      else if n > 115 then ''=''
      else if n > 92 then ''+''
      else if n > 69 then '';''
      else if n > 46 then '':''
      else if n > 23 then ''.''
      else '' '')"
    by (simp add: charGlyph_def word_less_nat_alt n_def)
  consider "n > 230" | "207 < n \<and> n \<le> 230" | "184 < n \<and> n \<le> 207" | "161 < n \<and> n \<le> 184"
    | "138 < n \<and> n \<le> 161" | "115 < n \<and> n \<le> 138" | "92 < n \<and> n \<le> 115" | "69 < n \<and> n \<le> 92"
    | "46 < n \<and> n \<le> 69" | "23 < n \<and> n \<le> 46" | "n \<le> 23"
    by linarith
  then have "(if n > 230 then ''#''
      else if n > 207 then ''&''
      else if n > 184 then ''$''
      else if n > 161 then ''X''
      else if n > 138 then ''x''
      else if n > 115 then ''=''
      else if n > 92 then ''+''
      else if n > 69 then '';''
      else if n > 46 then '':''
      else if n > 23 then ''.''
      else '' '') = [''#&$Xx=+;:. '' ! (10 - min 10 ((n - 1) div 23))]"
  proof cases
    case 1
    then have "min 10 ((n - 1) div 23) = 10" by simp
    with 1 show ?thesis by simp
  next
    case 2
    then have "(n - 1) div 23 = 9" by arith
    with 2 show ?thesis by simp
  next
    case 3
    then have "(n - 1) div 23 = 8" by arith
    with 3 show ?thesis by simp
  next
    case 4
    then have "(n - 1) div 23 = 7" by arith
    with 4 show ?thesis by simp
  next
    case 5
    then have "(n - 1) div 23 = 6" by arith
    with 5 show ?thesis by simp
  next
    case 6
    then have "(n - 1) div 23 = 5" by arith
    with 6 show ?thesis by simp
  next
    case 7
    then have "(n - 1) div 23 = 4" by arith
    with 7 show ?thesis by simp
  next
    case 8
    then have "(n - 1) div 23 = 3" by arith
    with 8 show ?thesis by simp
  next
    case 9
    then have "(n - 1) div 23 = 2" by arith
    with 9 show ?thesis by simp
  next
    case 10
    then have "(n - 1) div 23 = 1" by arith
    with 10 show ?thesis by simp
  next
    case 11
    then have "(n - 1) div 23 = 0" by arith
    with 11 show ?thesis by simp
  qed
  with c show ?thesis by (simp add: n_def)
qed


lemma andThen_Return_iff:
  "andThen m k = Return v \<longleftrightarrow> (\<exists>u. m = Return u \<and> k u = Return v)"
  by (cases m) auto

lemma rowPairLoop_suffix:
  "rowPairLoop ai fr d y x s = Return str \<Longrightarrow>
     \<exists>body. str = body @ backslash033 @ ''[0m'' @ backslashN"
proof (induction ai fr d y x s rule: rowPairLoop.induct)
  case (1 ai fr d y x s)
  show ?case
  proof (cases "x < w ai")
    case False
    with "1.prems" show ?thesis by (auto simp: rowPairLoop.simps[of ai fr d y x s])
  next
    case True
    with "1.prems" obtain up lo where
      "renderCell ai fr d y x = Return up" "renderCell ai fr d (y + 1) x = Return lo"
      "rowPairLoop ai fr d y (x + 1) (s @ up @ lo) = Return str"
      by (auto simp: rowPairLoop.simps[of ai fr d y x s] andThen_Return_iff)
    with True "1.IH" show ?thesis by blast
  qed
qed

lemma rowLoop_suffix:
  "rowLoop ai fr d y x s = Return str \<Longrightarrow>
     \<exists>body. str = body @ backslash033 @ ''[0m'' @ backslashN"
proof (induction ai fr d y x s rule: rowLoop.induct)
  case (1 ai fr d y x s)
  show ?case
  proof (cases "x < w ai")
    case False
    with "1.prems" show ?thesis by (auto simp: rowLoop.simps[of ai fr d y x s])
  next
    case True
    with "1.prems" obtain c where
      "renderCell ai fr d y x = Return c"
      "rowLoop ai fr d y (x + 1) (s @ c) = Return str"
      by (auto simp: rowLoop.simps[of ai fr d y x s] andThen_Return_iff)
    with True "1.IH" show ?thesis by blast
  qed
qed

section \<open>The sample inputs, evaluated\<close>

lemma fgEscape_sample: "fgEscape 100 150 200 = CHR 0x1B # ''[38;2;100;150;200m''"
  by (simp add: fgEscape_def fmt_d_def decimal.simps backslash033_def)

lemma bgEscape_zero: "bgEscape 0 0 0 = CHR 0x1B # ''[48;2;0;0;0m''"
  by (simp add: bgEscape_def fmt_d_def decimal.simps backslash033_def)

lemma fgEscape_zero: "fgEscape 0 0 0 = CHR 0x1B # ''[38;2;0;0;0m''"
  by (simp add: fgEscape_def fmt_d_def decimal.simps backslash033_def)

lemma sample_fields:
  "h (sampleImage dm) = 2" "w (sampleImage dm) = 2" "maxprocs (sampleImage dm) = 1"
  "dithering (sampleImage dm) = dm" "FrameCount (sampleImage dm) = 1"
  "bgR (sampleImage dm) = 0" "bgG (sampleImage dm) = 0" "bgB (sampleImage dm) = 0"
  by (simp_all add: sampleImage_def FrameCount_def)

lemma renderCell_sample_NoDithering:
  "renderCell (sampleImage NoDithering) 0 d 0 0 = Return (CHR 0x1B # ''[48;2;0;0;0m'')"
  "renderCell (sampleImage NoDithering) 0 d 0 1 = Return (CHR 0x1B # ''[48;2;0;0;0m'')"
  "renderCell (sampleImage NoDithering) 0 d 1 0
     = Return (CHR 0x1B # ''[38;2;0;0;0m'' @ [CHR 0xE2, CHR 0x96, CHR 0x84])"
  "renderCell (sampleImage NoDithering) 0 d 1 1
     = Return (CHR 0x1B # ''[38;2;0;0;0m'' @ [CHR 0xE2, CHR 0x96, CHR 0x84])"
  by (simp_all add: renderCell_def cell_sample ANSIpixel_RenderExt_def sample_fields
      newPixel_def signed_modulo_int_def bgEscape_zero fgEscape_zero lowerHalfBlock_def)

lemma renderRowPair_sample:
  "renderRowPair (sampleImage NoDithering) 0 d 0 =
     Return (CHR 0x1B # ''[48;2;0;0;0m'' @ CHR 0x1B # ''[38;2;0;0;0m'' @ [CHR 0xE2, CHR 0x96, CHR 0x84]
           @ CHR 0x1B # ''[48;2;0;0;0m'' @ CHR 0x1B # ''[38;2;0;0;0m'' @ [CHR 0xE2, CHR 0x96, CHR 0x84]
           @ CHR 0x1B # ''[0m'' @ [CHR 0x0A])"
  by (simp add: renderRowPair_def rowPairLoop.simps sample_fields renderCell_sample_NoDithering
      backslash033_def backslashN_def)

lemma renderCell_sample_Blocks:
  "renderCell (sampleImage DitheringWithBlocks) 0 False 0 0
     = Return (CHR 0x1B # ''[48;2;0;0;0m'' @ CHR 0x1B # ''[38;2;0;0;0m'' @ '' '')"
  "renderCell (sampleImage DitheringWithBlocks) 0 False 0 1
     = Return (CHR 0x1B # ''[48;2;0;0;0m'' @ CHR 0x1B # ''[38;2;0;0;0m'' @ '' '')"
  by (simp_all add: renderCell_def cell_sample ANSIpixel_RenderExt_def sample_fields
      newPixel_def bgEscape_zero fgEscape_zero ditheredText_def blockGlyph_def
      NoDithering_def DitheringWithBlocks_def)

lemma renderRow_sample:
  "renderRow (sampleImage DitheringWithBlocks) 0 False 0 =
     Return (CHR 0x1B # ''[48;2;0;0;0m'' @ CHR 0x1B # ''[38;2;0;0;0m'' @ '' ''
           @ CHR 0x1B # ''[48;2;0;0;0m'' @ CHR 0x1B # ''[38;2;0;0;0m'' @ '' ''
           @ CHR 0x1B # ''[0m'' @ [CHR 0x0A])"
  by (simp add: renderRow_def rowLoop.simps sample_fields renderCell_sample_Blocks
      backslash033_def backslashN_def)

section \<open>Properties of construction\<close>

lemma cell_New:
  assumes "New hh ww n bg dm = Return ai"
  shows "cell ai fr y x =
     (if 0 \<le> fr \<and> fr < n \<and> 0 \<le> y \<and> y < hh \<and> 0 \<le> x \<and> x < ww
      then Some (newPixel dm y) else None)"
  using assms
  by (auto simp: New_def cell_def index_def newFrame_def split: if_splits prod.splits)

lemma cell_delay_update [simp]: "cell (ai\<lparr>delay := ds\<rparr>) fr y x = cell ai fr y x"
  by (simp add: cell_def)

lemma New_rejects:
  "(dm = NoDithering \<and> odd hh \<longrightarrow> New hh ww n bg dm = Error ErrHeightNonMoT)
   \<and> (\<not> (dm = NoDithering \<and> odd hh) \<and> (hh < 2 \<or> ww < 2) \<longrightarrow>
        New hh ww n bg dm = Error ErrInvalidBoundsMoT)"
  by (simp add: New_def smod_2_even)

lemma createANSImage_New_error:
  assumes "proxy_image g = first # rest"
    and "New (MaxY (Bounds first)) (MaxX (Bounds first)) (int (length (proxy_image g))) bg dm
           = Error e"
  shows "createANSImage ext g bg dm = Error e"
  using assms by (simp add: createANSImage_def Let_def)

lemma scaleLoop_unknown:
  assumes "sm \<noteq> ScaleModeResize" "sm \<noteq> ScaleModeFill" "sm \<noteq> ScaleModeFit"
    and "0 \<le> fr" "fr < int (length gifDelay)"
  shows "scaleLoop ext sm y x bounds gifDelay fr (p # ps) st
           = Panic (PanicError errUnknownScaleMode)"
  using assms by (cases st) (simp add: index_def Let_def split: prod.splits)

lemma frameStep_bounds:
  assumes "frameStep ext bg dm bounds delays fr img (ai, yMax, xMax) = Return (ai', yMax', xMax')"
  shows "(yMax', xMax') = truncateBounds dm (yMax, xMax)"
proof (cases "truncateBounds dm (yMax, xMax)")
  case (Pair a b)
  with assms show ?thesis
    by (auto simp: frameStep_def andThen_Return_iff split: option.splits)
qed

text \<open>The two white frames, step by step.\<close>

lemma blockPoints_0_0:
  "blockPoints 0 0 =
    [(0,0),(1,0),(2,0),(3,0),(0,1),(1,1),(2,1),(3,1),(0,2),(1,2),(2,2),(3,2),
     (0,3),(1,3),(2,3),(3,3),(0,4),(1,4),(2,4),(3,4),(0,5),(1,5),(2,5),(3,5),
     (0,6),(1,6),(2,6),(3,6),(0,7),(1,7),(2,7),(3,7)]"
  by (simp add: blockPoints_def BlockSizeX_def BlockSizeY_def upt_rec[of _ "nat _"]
      upt_rec[of _ "numeral _"] eval_nat_numeral)

lemma composite_white:
  "composite sampleExternals Black \<lparr>MinX = 0, MinY = 0, MaxX = 4, MaxY = 8\<rparr> whiteBuffer
     = Return whiteBuffer"
  by (simp add: composite_def Black_def NewRGBA_def sampleExternals_def whiteBuffer_def)

lemma accumulate_white:
  "0 \<le> px \<Longrightarrow> px < 4 \<Longrightarrow> 0 \<le> py \<Longrightarrow> py < 8 \<Longrightarrow>
   accumulate sampleExternals whiteBuffer (a, b, c, d) (px, py) = (a + 1, b + 1, c + 1, d + 1)"
  by (simp add: accumulate_def RGBAAt_def whiteBuffer_def white_def sampleExternals_def)

lemma average_32: "average sampleExternals 32 = 255"
  by (simp add: average_def sampleExternals_def BlockSizeX_def BlockSizeY_def
      uint8_of_float_def)

lemma quantizeBlock_white: "quantizeBlock sampleExternals whiteBuffer 0 0 = (255, 255, 255, 255)"
  by (simp add: quantizeBlock_def blockPoints_0_0 accumulate_white average_32)

lemma New_blankImage: "New 8 4 2 Black DitheringWithBlocks = Return blankImage"
  by (simp add: New_def blankImage_def Black_def NoDithering_def DitheringWithBlocks_def
      eval_nat_numeral)

lemma blankImage_fields:
  "h blankImage = 8" "w blankImage = 4" "dithering blankImage = DitheringWithBlocks"
  "delay blankImage = [0, 0]"
  by (simp_all add: blankImage_def)

lemma first_frame:
  "frameStep sampleExternals Black DitheringWithBlocks \<lparr>MinX = 0, MinY = 0, MaxX = 4, MaxY = 8\<rparr>
     [10, 10] 0 whiteBuffer (blankImage, 8, 4)
   = Return (firstFrameDone, 1, 1)"
  by (simp add: frameStep_def index_def blankImage_fields composite_white truncateBounds_def
      NoDithering_def DitheringWithBlocks_def BlockSizeX_def BlockSizeY_def
      signed_divide_int_def forRange.simps quantizeCell_def quantizeBlock_white
      setOrReturn_def SetAt_def cell_New[OF New_blankImage] newPixel_def firstFrameDone_def)

lemma firstFrameDone_delay: "delay firstFrameDone = [10, 0]"
  by (simp add: firstFrameDone_def)

lemma second_frame:
  "frameStep sampleExternals Black DitheringWithBlocks \<lparr>MinX = 0, MinY = 0, MaxX = 4, MaxY = 8\<rparr>
     [10, 10] 1 whiteBuffer (firstFrameDone, 1, 1)
   = Return (firstFrameDone\<lparr>delay := [10, 10]\<rparr>, 0, 0)"
  by (simp add: frameStep_def index_def firstFrameDone_delay composite_white
      truncateBounds_def NoDithering_def DitheringWithBlocks_def BlockSizeX_def BlockSizeY_def
      signed_divide_int_def forRange.simps)

lemma create_two_frames:
  "createANSImage sampleExternals
     \<lparr>proxy_image = [whiteBuffer, whiteBuffer], proxy_delay = [10, 10]\<rparr>
     Black DitheringWithBlocks
   = Return (firstFrameDone\<lparr>delay := [10, 10]\<rparr>)"
proof -
  have b: "Bounds whiteBuffer = \<lparr>MinX = 0, MinY = 0, MaxX = 4, MaxY = 8\<rparr>"
    by (simp add: whiteBuffer_def)
  show ?thesis
    unfolding createANSImage_def
    by (simp add: b New_blankImage first_frame second_frame)
qed

lemma NewFromReader_two_frames:
  "NewFromReader sampleExternals (Encoded twoWhiteFrames) Black DitheringWithBlocks
   = Return (firstFrameDone\<lparr>delay := [10, 10]\<rparr>)"
proof -
  have "composeLoop sampleExternals \<lparr>MinX = 0, MinY = 0, MaxX = 4, MaxY = 8\<rparr> [10, 10] 0
          [uniformFrame 8 4 white, uniformFrame 8 4 white]
          (\<lparr>Bounds = \<lparr>MinX = 0, MinY = 0, MaxX = 4, MaxY = 8\<rparr>, isRGBA = True,
            pixels = (\<lambda>x y. (0, 0, 0, 0))\<rparr>, [0, 0])
        = Return (whiteBuffer, [10, 10])"
    by (simp add: index_def sampleExternals_def uniformFrame_def whiteBuffer_def)
  then show ?thesis
    by (simp add: NewFromReader_def DecodeAll_def twoWhiteFrames_def NewRGBA_def
        uniformFrame_def[of 8 4 white, THEN arg_cong[of _ _ Bounds]] eval_nat_numeral
        create_two_frames[simplified eval_nat_numeral])
qed

text \<open>
  The frame loops of the two readers return when every frame has a delay, and the error
  of \<open>New\<close> on the first image of the proxy is the error of the reader.
\<close>

lemma composeLoop_returns:
  assumes keep: "\<And>dst b src op. Bounds (draw_Draw ext dst b src op) = Bounds dst"
  shows "0 \<le> fr \<Longrightarrow> fr + int (length frames) \<le> int (length gifDelay) \<Longrightarrow>
     \<exists>img' delays'. composeLoop ext bounds gifDelay fr frames (img, delays) = Return (img', delays')
        \<and> Bounds img' = Bounds img"
proof (induction frames arbitrary: fr img delays)
  case Nil
  then show ?case by simp
next
  case (Cons p ps)
  then have i: "index gifDelay fr = Some (gifDelay ! nat fr)" by (simp add: index_def)
  from Cons.prems have "0 \<le> fr + 1" "fr + 1 + int (length ps) \<le> int (length gifDelay)" by simp_all
  from Cons.IH[OF this, of "draw_Draw ext img bounds p Over" "delays[nat fr := gifDelay ! nat fr]"]
  show ?case by (simp add: i keep)
qed

lemma scaleLoop_returns:
  assumes sm: "sm = ScaleModeResize \<or> sm = ScaleModeFill \<or> sm = ScaleModeFit"
  shows "0 \<le> fr \<Longrightarrow> fr + int (length frames) \<le> int (length gifDelay) \<Longrightarrow>
     \<exists>img' new delays'.
        scaleLoop ext sm y x bounds gifDelay fr frames (img, images, delays)
          = Return (img', images @ new, delays')
        \<and> length new = length frames
        \<and> (frames \<noteq> [] \<longrightarrow> hd new = scaled ext sm (draw_Draw ext img bounds (hd frames) Over) x y)"
proof (induction frames arbitrary: fr img images delays)
  case Nil
  then show ?case by simp
next
  case (Cons p ps)
  then have i: "index gifDelay fr = Some (gifDelay ! nat fr)" by (simp add: index_def)
  let ?img = "draw_Draw ext img bounds p Over"
  let ?s = "scaled ext sm ?img x y"
  from Cons.prems have "0 \<le> fr + 1" "fr + 1 + int (length ps) \<le> int (length gifDelay)" by simp_all
  from Cons.IH[OF this, of ?img "images @ [?s]" "delays[nat fr := gifDelay ! nat fr]"]
  obtain img' new delays' where
    r: "scaleLoop ext sm y x bounds gifDelay (fr + 1) ps
          (?img, images @ [?s], delays[nat fr := gifDelay ! nat fr])
        = Return (img', (images @ [?s]) @ new, delays')"
    and l: "length new = length ps"
    by blast
  have step: "scaleLoop ext sm y x bounds gifDelay fr (p # ps) (img, images, delays)
      = scaleLoop ext sm y x bounds gifDelay (fr + 1) ps
          (?img, images @ [?s], delays[nat fr := gifDelay ! nat fr])"
    using sm by (auto simp: i Let_def scaled_def ScaleModeResize_def ScaleModeFill_def ScaleModeFit_def)
  show ?case
    unfolding step r
    using l by (intro exI[of _ img'] exI[of _ "?s # new"] exI[of _ delays']) simp
qed

lemma NewFromReader_New_error:
  assumes keep: "\<forall>dst b src op. Bounds (draw_Draw ext dst b src op) = Bounds dst"
    and frames: "GIF_Image gif = p # ps"
    and delays: "length (GIF_Image gif) \<le> length (GIF_Delay gif)"
    and rect: "MinX (Bounds p) \<le> MaxX (Bounds p)" "MinY (Bounds p) \<le> MaxY (Bounds p)"
    and new: "New (MaxY (Bounds p)) (MaxX (Bounds p)) (int (length (GIF_Image gif))) bg dm
                = Error e"
  shows "NewFromReader ext (Encoded gif) bg dm = Error e"
proof -
  let ?img = "\<lparr>Bounds = Bounds p, isRGBA = True, pixels = (\<lambda>x y. (0, 0, 0, 0))\<rparr>"
  have dec: "DecodeAll (Encoded gif) = Inr gif"
    using frames by (simp add: DecodeAll_def)
  have img: "NewRGBA (Bounds p) = Return ?img"
    using rect by (simp add: NewRGBA_def)
  from keep have k: "\<And>dst b src op. Bounds (draw_Draw ext dst b src op) = Bounds dst" by blast
  from composeLoop_returns[of ext 0 "GIF_Image gif" "GIF_Delay gif" "Bounds p" ?img
      "replicate (length (GIF_Delay gif)) 0", OF k] delays
  obtain img' delays' where
    c: "composeLoop ext (Bounds p) (GIF_Delay gif) 0 (p # ps)
          (?img, replicate (length (GIF_Delay gif)) 0) = Return (img', delays')"
    and b: "Bounds img' = Bounds p"
    by (auto simp add: frames simp del: composeLoop.simps)
  have "createANSImage ext
          \<lparr>proxy_image = img' # replicate (length ps) img', proxy_delay = delays'\<rparr> bg dm
        = Error e"
    using new by (intro createANSImage_New_error[where first = img' and rest = "replicate (length ps) img'"])
      (simp_all add: frames b)
  then show ?thesis
    by (simp add: NewFromReader_def dec frames img c del: composeLoop.simps)
qed

lemma NewScaledFromReader_New_error:
  assumes sm: "sm = ScaleModeResize \<or> sm = ScaleModeFill \<or> sm = ScaleModeFit"
    and frames: "GIF_Image gif = p # ps"
    and delays: "length (GIF_Image gif) \<le> length (GIF_Delay gif)"
    and rect: "MinX (Bounds p) \<le> MaxX (Bounds p)" "MinY (Bounds p) \<le> MaxY (Bounds p)"
    and new: "New (MaxY (Bounds (scaled ext sm (firstComposed ext p) x y)))
                  (MaxX (Bounds (scaled ext sm (firstComposed ext p) x y)))
                  (int (length (GIF_Image gif))) bg dm = Error e"
  shows "NewScaledFromReader ext (Encoded gif) y x bg sm dm = Error e"
proof -
  let ?img = "\<lparr>Bounds = Bounds p, isRGBA = True, pixels = (\<lambda>x y. (0, 0, 0, 0))\<rparr>"
  have dec: "DecodeAll (Encoded gif) = Inr gif"
    using frames by (simp add: DecodeAll_def)
  have img: "NewRGBA (Bounds p) = Return ?img"
    using rect by (simp add: NewRGBA_def)
  from scaleLoop_returns[OF sm, of 0 "GIF_Image gif" "GIF_Delay gif" ext y x "Bounds p" ?img "[]"
      "replicate (length (GIF_Delay gif)) 0"] delays
  obtain img' new delays' where
    c: "scaleLoop ext sm y x (Bounds p) (GIF_Delay gif) 0 (p # ps)
          (?img, [], replicate (length (GIF_Delay gif)) 0) = Return (img', new, delays')"
    and l: "length new = length (p # ps)"
    and h: "hd new = scaled ext sm (firstComposed ext p) x y"
    by (auto simp add: frames firstComposed_def simp del: scaleLoop.simps)
  from l h obtain rest where n: "new = scaled ext sm (firstComposed ext p) x y # rest"
    and lr: "length rest = length ps"
    by (cases new) simp_all
  have "createANSImage ext \<lparr>proxy_image = new, proxy_delay = delays'\<rparr> bg dm = Error e"
    using new by (intro createANSImage_New_error[where
          first = "scaled ext sm (firstComposed ext p) x y" and rest = rest])
      (simp_all add: n lr frames)
  then show ?thesis
    by (simp add: NewScaledFromReader_def dec frames img c del: scaleLoop.simps)
qed

text \<open>
  The one-frame GIF of 2 by 2 pixels, fitted into 2 by 3: the frame already fits, the
  scaling returns a copy of it, and the image is built from the 2 by 2 copy.
\<close>

lemma scaleLoop_small_fit:
  "scaleLoop sampleExternals ScaleModeFit 3 2 \<lparr>MinX = 0, MinY = 0, MaxX = 2, MaxY = 2\<rparr> [10] 0
      [uniformFrame 2 2 white]
      (\<lparr>Bounds = \<lparr>MinX = 0, MinY = 0, MaxX = 2, MaxY = 2\<rparr>, isRGBA = True,
        pixels = (\<lambda>x y. (0, 0, 0, 0))\<rparr>, [], [0])
   = Return (uniformFrame 2 2 white\<lparr>isRGBA := True\<rparr>, [uniformFrame 2 2 white], [10])"
  by (simp add: index_def ScaleModeResize_def ScaleModeFill_def ScaleModeFit_def
      sampleExternals_def uniformFrame_def Let_def)

lemma create_small:
  "createANSImage sampleExternals
     \<lparr>proxy_image = [uniformFrame 2 2 white], proxy_delay = [10]\<rparr> Black NoDithering
   = Return smallWhiteImage"
  unfolding createANSImage_def
  by (simp add: Let_def New_def Black_def NoDithering_def newFrame_def newPixel_def
      eval_nat_numeral frameStep_def index_def composite_def NewRGBA_def sampleExternals_def
      truncateBounds_def forRange.simps quantizeCell_def RGBAAt_def uniformFrame_def white_def
      setOrReturn_def SetAt_def cell_def putCell_def smallWhiteImage_def
      signed_modulo_int_def)

lemma fit_accepts_odd_target:
  "NewScaledFromReader sampleExternals (Encoded oneSmallFrame) 3 2 Black ScaleModeFit NoDithering
     = Return smallWhiteImage"
  by (simp add: NewScaledFromReader_def DecodeAll_def oneSmallFrame_def NewRGBA_def
      uniformFrame_def[of 2 2 white, THEN arg_cong[of _ _ Bounds]] scaleLoop_small_fit
      create_small del: scaleLoop.simps)

section \<open>What a rendered frame holds\<close>

text \<open>
  The order in which the results of a window arrive does not matter: when values for the
  same row carry the same text, what \<open>collect\<close> returns depends on the set of values
  alone.
\<close>

lemma collect_result:
  assumes fn: "\<forall>r s s'. (r, s) \<in> set sent \<longrightarrow> (r, s') \<in> set sent \<longrightarrow> s = s'"
  shows "collect rows sent =
     (if \<forall>(r, s) \<in> set sent. 0 \<le> r \<and> r < int (length rows)
      then Return (map (\<lambda>i. if \<exists>s. (int i, s) \<in> set sent
                              then (THE s. (int i, s) \<in> set sent) else rows ! i)
                       [0..<length rows])
      else Panic IndexOutOfRange)"
  using fn
proof (induction sent arbitrary: rows)
  case Nil
  then show ?case by (simp add: map_nth)
next
  case (Cons p sent)
  obtain r s where p: "p = (r, s)" by (cases p)
  from Cons.prems have fn': "\<forall>r s s'. (r, s) \<in> set sent \<longrightarrow> (r, s') \<in> set sent \<longrightarrow> s = s'"
    by auto
  from Cons.prems have uniq: "\<And>s'. (r, s') \<in> set sent \<Longrightarrow> s' = s"
    by (auto simp: p)
  show ?case
  proof (cases "0 \<le> r \<and> r < int (length rows)")
    case False
    then show ?thesis by (auto simp: p)
  next
    case True
    have the_r: "(THE s'. (r, s') \<in> set (p # sent)) = s"
      using uniq by (auto simp: p)
    have the_other: "(THE s'. (k, s') \<in> set (p # sent)) = (THE s'. (k, s') \<in> set sent)"
      if "k \<noteq> r" for k
      using that by (simp add: p)
    have ex_other: "(\<exists>s'. (k, s') \<in> set (p # sent)) = (\<exists>s'. (k, s') \<in> set sent)"
      if "k \<noteq> r" for k
      using that by (simp add: p)
    have body: "(if \<exists>s'. (int i, s') \<in> set sent then (THE s'. (int i, s') \<in> set sent)
                 else rows[nat r := s] ! i)
              = (if \<exists>s'. (int i, s') \<in> set (p # sent) then (THE s'. (int i, s') \<in> set (p # sent))
                 else rows ! i)"
      if i: "i < length rows" for i
    proof (cases "int i = r")
      case eq: True
      then have ir: "i = nat r" by simp
      have ex: "\<exists>s'. (int i, s') \<in> set (p # sent)" using eq by (auto simp: p)
      show ?thesis
      proof (cases "\<exists>s'. (r, s') \<in> set sent")
        case True
        then obtain s' where "(r, s') \<in> set sent" by blast
        with uniq have "(THE s'. (r, s') \<in> set sent) = s" by (auto intro!: the_equality)
        with True ex the_r eq show ?thesis by simp
      next
        case False
        with ex the_r eq i ir show ?thesis by simp
      qed
    next
      case False
      then have "i \<noteq> nat r" using True by auto
      then have a: "rows[nat r := s] ! i = rows ! i" by simp
      show ?thesis
        by (simp only: the_other[OF False] ex_other[OF False] a)
    qed
    have "collect rows (p # sent) = collect (rows[nat r := s]) sent"
      using True by (simp add: p)
    also have "\<dots> = (if \<forall>(r, s) \<in> set sent. 0 \<le> r \<and> r < int (length rows)
      then Return (map (\<lambda>i. if \<exists>s'. (int i, s') \<in> set sent
                              then (THE s'. (int i, s') \<in> set sent) else rows[nat r := s] ! i)
                       [0..<length rows])
      else Panic IndexOutOfRange)"
      using Cons.IH[OF fn', of "rows[nat r := s]"] by simp
    also have "\<dots> = (if \<forall>(r, s) \<in> set (p # sent). 0 \<le> r \<and> r < int (length rows)
      then Return (map (\<lambda>i. if \<exists>s'. (int i, s') \<in> set (p # sent)
                              then (THE s'. (int i, s') \<in> set (p # sent)) else rows ! i)
                       [0..<length rows])
      else Panic IndexOutOfRange)"
      using True body by (auto simp: p intro!: map_cong)
    finally show ?thesis .
  qed
qed

lemma collect_any_order:
  assumes "set sent' = set sent"
    and "\<forall>r s s'. (r, s) \<in> set sent \<longrightarrow> (r, s') \<in> set sent \<longrightarrow> s = s'"
  shows "collect rows sent' = collect rows sent"
  using assms by (simp add: collect_result)

lemma renderCell_NoDithering:
  assumes "wellFormed ai" "dithering ai = NoDithering"
    "0 \<le> fr" "fr < FrameCount ai" "0 \<le> y" "y < h ai" "0 \<le> x" "x < w ai"
  shows "\<exists>s. renderCell ai fr d y x = Return s"
  using assms
  by (simp add: renderCell_def cell_wellFormed FrameCount_def ANSIpixel_RenderExt_def)

lemma rowPairLoop_returns:
  assumes "wellFormed ai" "dithering ai = NoDithering"
    "0 \<le> fr" "fr < FrameCount ai" "0 \<le> y" "y + 1 < h ai"
  shows "0 \<le> x \<Longrightarrow> \<exists>s. rowPairLoop ai fr d y x str = Return s"
proof (induction "nat (w ai - x)" arbitrary: x str)
  case 0
  then have "\<not> x < w ai" by simp
  then show ?case by (simp add: rowPairLoop.simps[of ai fr d y x str])
next
  case (Suc k)
  then have x: "x < w ai" "0 \<le> x" by simp_all
  from renderCell_NoDithering[OF assms(1-4), of y x d] assms(5,6) x
  obtain up where up: "renderCell ai fr d y x = Return up" by auto
  from renderCell_NoDithering[OF assms(1-4), of "y + 1" x d] assms(5,6) x
  obtain lo where lo: "renderCell ai fr d (y + 1) x = Return lo" by auto
  from Suc(2) have "k = nat (w ai - (x + 1))" by simp
  from Suc(1)[OF this, of "str @ up @ lo"] x
  obtain s where "rowPairLoop ai fr d y (x + 1) (str @ up @ lo) = Return s" by auto
  then show ?case using x up lo by (simp add: rowPairLoop.simps[of ai fr d y x str])
qed

lemma renderRowPair_returns:
  assumes "wellFormed ai" "dithering ai = NoDithering"
    "0 \<le> fr" "fr < FrameCount ai" "0 \<le> r" "2 * r + 1 < h ai"
  shows "renderRowPair ai fr d (2 * r) = Return (rowPairText ai fr d r)"
proof -
  from rowPairLoop_returns[OF assms(1-4), of "2 * r" 0 d "[]"] assms(5,6)
  obtain s where "renderRowPair ai fr d (2 * r) = Return s"
    by (auto simp: renderRowPair_def)
  then show ?thesis by (simp add: rowPairText_def)
qed

lemma pair_row_bound: "(2 * r + 1 < hh) = (r \<le> hh div 2 - 1)" for r hh :: int
  by presburger

lemma spawnRowPairs_from:
  assumes "wellFormed ai" "dithering ai = NoDithering" "0 \<le> fr" "fr < FrameCount ai" "0 \<le> y"
  shows "1 \<le> n \<Longrightarrow>
     spawnRowPairs ai fr d y n (y + n) sent =
       Return (sent @ map (\<lambda>k. (k, rowPairText ai fr d k))
                        [y + n .. min (y + maxprocs ai) (h ai div 2 - 1)])"
proof (induction "nat (maxprocs ai + 1 - n)" arbitrary: n sent)
  case 0
  then have "\<not> n \<le> maxprocs ai" by simp
  then show ?case
    by (simp add: spawnRowPairs.simps[of ai fr d y n "y + n" sent])
next
  case (Suc k)
  then have n: "n \<le> maxprocs ai" "1 \<le> n" by simp_all
  show ?case
  proof (cases "2 * (y + n) + 1 < h ai")
    case False
    then have "\<not> y + n \<le> h ai div 2 - 1" by (simp add: pair_row_bound)
    then have "[y + n .. min (y + maxprocs ai) (h ai div 2 - 1)] = []" by simp
    with False show ?thesis
      by (simp add: spawnRowPairs.simps[of ai fr d y n "y + n" sent])
  next
    case True
    then have le: "y + n \<le> min (y + maxprocs ai) (h ai div 2 - 1)"
      using n by (simp add: pair_row_bound)
    have rr: "renderRowPair ai fr d (2 * (y + n)) = Return (rowPairText ai fr d (y + n))"
      using assms n True by (intro renderRowPair_returns) simp_all
    then have rr': "renderRowPair ai fr d (2 * y + 2 * n) = Return (rowPairText ai fr d (y + n))"
      by (simp add: algebra_simps)
    from Suc(2) have "k = nat (maxprocs ai + 1 - (n + 1))" by simp
    from Suc(1)[OF this, of "sent @ [(y + n, rowPairText ai fr d (y + n))]"] n
    have ih: "spawnRowPairs ai fr d y (n + 1) (y + (n + 1)) (sent @ [(y + n, rowPairText ai fr d (y + n))])
      = Return ((sent @ [(y + n, rowPairText ai fr d (y + n))]) @ map (\<lambda>k. (k, rowPairText ai fr d k))
                        [y + (n + 1) .. min (y + maxprocs ai) (h ai div 2 - 1)])"
      by simp
    have up: "[y + n .. min (y + maxprocs ai) (h ai div 2 - 1)]
        = (y + n) # [y + (n + 1) .. min (y + maxprocs ai) (h ai div 2 - 1)]"
      using le by (simp add: upto_rec1 add.assoc)
    show ?thesis
      using True n ih
      by (simp add: spawnRowPairs.simps[of ai fr d y n "y + n" sent] rr' up add.assoc)
  qed
qed


lemma spawnRowPairs_window:
  assumes "wellFormed ai" "dithering ai = NoDithering" "0 \<le> fr" "fr < FrameCount ai" "0 \<le> y"
    and mp: "1 \<le> maxprocs ai"
  shows "spawnRowPairs ai fr d y 0 (y + 1) [] =
       Return ((if y + 1 \<le> h ai div 2 - 1 then [(y + 1, rowPairText ai fr d (y + 1))] else [])
               @ map (\<lambda>k. (k, rowPairText ai fr d k))
                        [y + 1 .. min (y + maxprocs ai) (h ai div 2 - 1)])"
proof (cases "y + 1 \<le> h ai div 2 - 1")
  case False
  then have "\<not> 2 * (y + 1) + 1 < h ai"
    using pair_row_bound[of "y + 1" "h ai"] by blast
  moreover from False have "[y + 1 .. min (y + maxprocs ai) (h ai div 2 - 1)] = []" by simp
  ultimately show ?thesis using False
    by (simp add: spawnRowPairs.simps[of ai fr d y 0 "y + 1" "[]"])
next
  case True
  then have c: "2 * (y + 1) + 1 < h ai"
    using pair_row_bound[of "y + 1" "h ai"] by blast
  have rr: "renderRowPair ai fr d (2 * (y + 1)) = Return (rowPairText ai fr d (y + 1))"
    using assms c by (intro renderRowPair_returns) simp_all
  have "spawnRowPairs ai fr d y 0 (y + 1) [] =
      andThen (renderRowPair ai fr d (2 * (y + 1)))
        (\<lambda>str. spawnRowPairs ai fr d y (0 + 1) (y + 0 + 1) ([] @ [(y + 1, str)]))"
    using c mp by (subst spawnRowPairs.simps) simp
  also have "\<dots> = spawnRowPairs ai fr d y 1 (y + 1) [(y + 1, rowPairText ai fr d (y + 1))]"
    unfolding rr by simp
  also have "\<dots> = Return ([(y + 1, rowPairText ai fr d (y + 1))]
               @ map (\<lambda>k. (k, rowPairText ai fr d k))
                        [y + 1 .. min (y + maxprocs ai) (h ai div 2 - 1)])"
    by (rule spawnRowPairs_from[OF assms(1-5), of 1]) simp
  finally show ?thesis using True by simp
qed

lemma filledFrom_update:
  assumes "0 \<le> k" "k < int n" "lo \<le> k" "k \<le> a + 1"
  shows "(filledFrom T lo a n)[nat k := T k] = filledFrom T lo (max a k) n"
proof (rule nth_equalityI)
  show "length ((filledFrom T lo a n)[nat k := T k]) = length (filledFrom T lo (max a k) n)"
    by (simp add: filledFrom_def)
next
  fix i assume "i < length ((filledFrom T lo a n)[nat k := T k])"
  then have i: "i < n" by (simp add: filledFrom_def)
  show "(filledFrom T lo a n)[nat k := T k] ! i = filledFrom T lo (max a k) n ! i"
  proof (cases "i = nat k")
    case True
    then have ik: "int i = k" using assms by simp
    have "(filledFrom T lo a n)[nat k := T k] ! i = T k"
      using i True by (simp add: filledFrom_def)
    moreover have "filledFrom T lo (max a k) n ! i = T k"
      using i ik assms by (simp add: filledFrom_def)
    ultimately show ?thesis by simp
  next
    case False
    then have "int i \<noteq> k" using assms by auto
    with i assms False show ?thesis by (auto simp: filledFrom_def)
  qed
qed

lemma collect_filled:
  assumes "lo \<le> k" "0 \<le> k" "k \<le> a + 1" "b < int n"
  shows "collect (filledFrom T lo a n) (map (\<lambda>k. (k, T k)) [k .. b])
           = Return (filledFrom T lo (max a b) n)"
  using assms
proof (induction "nat (b + 1 - k)" arbitrary: k a)
  case 0
  then have "b < k" by simp
  then have "[k .. b] = []" "max a b = a" using 0 by simp_all
  then show ?case by simp
next
  case (Suc m)
  then have kb: "k \<le> b" by simp
  then have up: "[k .. b] = k # [k + 1 .. b]" by (simp add: upto_rec1)
  have kn: "k < int n" using kb Suc.prems by simp
  have upd: "(filledFrom T lo a n)[nat k := T k] = filledFrom T lo (max a k) n"
    using Suc.prems kn by (intro filledFrom_update) simp_all
  from Suc(2) have "m = nat (b + 1 - (k + 1))" by simp
  from Suc(1)[OF this, of "max a k"] Suc.prems
  have "collect (filledFrom T lo (max a k) n) (map (\<lambda>k. (k, T k)) [k + 1 .. b])
           = Return (filledFrom T lo (max (max a k) b) n)"
    by simp
  moreover have "max (max a k) b = max a b" using kb by simp
  ultimately show ?case using kn Suc.prems
    by (simp add: up upd filledFrom_def[of T lo a n, THEN arg_cong[of _ _ length]])
qed


lemma noDitheringLoop_filled:
  assumes wf: "wellFormed ai" and nd: "dithering ai = NoDithering"
    and fr: "0 \<le> fr" "fr < FrameCount ai" and mp: "1 \<le> maxprocs ai"
  shows "0 \<le> y \<Longrightarrow>
     noDitheringLoop ai fr d y
        (filledFrom (rowPairText ai fr d) 1 (min y (h ai div 2 - 1)) (nat (h ai div 2)))
     = Some (Return (filledFrom (rowPairText ai fr d) 1 (h ai div 2 - 1) (nat (h ai div 2))))"
proof (induction "nat (h ai - y)" arbitrary: y rule: less_induct)
  case less
  let ?T = "rowPairText ai fr d"
  let ?H = "h ai div 2"
  let ?n = "nat ?H"
  from wf have h2: "2 \<le> h ai" by (simp add: wellFormed_def)
  then have H: "1 \<le> ?H" "?H \<le> h ai" by presburger+
  show ?case
  proof (cases "y < h ai")
    case False
    then have "min y (?H - 1) = ?H - 1" using H by simp
    with False show ?thesis by (simp add: noDitheringLoop.simps[of ai fr d y])
  next
    case True
    let ?b = "min (y + maxprocs ai) (?H - 1)"
    have win: "andThen (spawnRowPairs ai fr d y 0 (y + 1) [])
                 (collect (filledFrom ?T 1 (min y (?H - 1)) ?n))
               = Return (filledFrom ?T 1 ?b ?n)"
    proof (cases "y + 1 \<le> ?H - 1")
      case False
      then have "[y + 1 .. ?b] = []" "min y (?H - 1) = ?H - 1" "?b = ?H - 1"
        using mp by simp_all
      with False show ?thesis
        by (simp add: spawnRowPairs_window[OF wf nd fr less.prems mp])
    next
      case in_range: True
      then have a: "min y (?H - 1) = y" by simp
      have k: "0 \<le> y + 1" "y + 1 < int ?n" using less.prems in_range by simp_all
      have upd: "(filledFrom ?T 1 y ?n)[nat (y + 1) := ?T (y + 1)] = filledFrom ?T 1 (y + 1) ?n"
        using filledFrom_update[of "y + 1" ?n 1 y ?T] k less.prems by simp
      have bn: "?b < int ?n" using H by simp
      have rest: "collect (filledFrom ?T 1 (y + 1) ?n) (map (\<lambda>k. (k, ?T k)) [y + 1 .. ?b])
            = Return (filledFrom ?T 1 (max (y + 1) ?b) ?n)"
        using less.prems bn by (intro collect_filled) simp_all
      have m: "max (y + 1) ?b = ?b" using in_range mp by simp
      have len: "length (filledFrom ?T 1 y ?n) = ?n" by (simp add: filledFrom_def)
      show ?thesis
        using in_range k
        by (simp add: spawnRowPairs_window[OF wf nd fr less.prems mp] a len upd rest m)
    qed
    have "nat (h ai - (y + maxprocs ai)) < nat (h ai - y)" using True mp by simp
    from less.hyps[OF this] less.prems mp
    have ih: "noDitheringLoop ai fr d (y + maxprocs ai) (filledFrom ?T 1 ?b ?n)
       = Some (Return (filledFrom ?T 1 (?H - 1) ?n))"
      by simp
    show ?thesis
      using True mp
      by (subst noDitheringLoop.simps) (simp add: win ih)
  qed
qed

text \<open>
  Without dithering, for every image the package can build, with a parallelism bound of
  at least 1 and a valid frame index, \<open>RenderExt\<close> returns, and its text is the rendered
  terminal rows 1 to \<open>h/2 - 1\<close> in ascending order: the slot of row 0 stays empty, although
  a rendered row is never empty.
\<close>

lemma RenderExt_NoDithering:
  assumes "reachable ai" and nd: "dithering ai = NoDithering"
    and mp: "1 \<le> maxprocs ai" and fr: "0 \<le> fr" "fr < FrameCount ai"
  shows "RenderExt ai fr d =
     Some (Return (concat (map (\<lambda>r. if r = 0 then [] else rowPairText ai fr d (int r))
                               [0..<nat (h ai div 2)])))"
proof -
  from assms(1) have wf: "wellFormed ai" by (rule reachable_wellFormed)
  let ?T = "rowPairText ai fr d"
  let ?H = "h ai div 2"
  from wf have h2: "2 \<le> h ai" by (simp add: wellFormed_def)
  then have H: "1 \<le> ?H" by presburger
  have sd: "h ai sdiv 2 = ?H" using h2 by (simp add: signed_divide_int_def sgn_if)
  have init: "replicate (nat ?H) [] = filledFrom ?T 1 (min 0 (?H - 1)) (nat ?H)"
  proof -
    have "map (\<lambda>i. if 1 \<le> int i \<and> int i \<le> 0 then ?T (int i) else []) [0..<nat ?H]
        = map (\<lambda>i. []) [0..<nat ?H]"
      by (rule map_cong) auto
    then show ?thesis using H by (simp add: filledFrom_def map_replicate_const)
  qed
  have fin: "filledFrom ?T 1 (?H - 1) (nat ?H)
      = map (\<lambda>r. if r = 0 then [] else ?T (int r)) [0..<nat ?H]"
    unfolding filledFrom_def by (rule map_cong) auto
  have loop: "noDitheringLoop ai fr d 0 (replicate (nat ?H) [])
      = Some (Return (map (\<lambda>r. if r = 0 then [] else ?T (int r)) [0..<nat ?H]))"
    using noDitheringLoop_filled[OF wf nd fr mp, of 0 d]
    unfolding init fin by simp
  have "\<not> ?H < 0" using H by simp
  then show ?thesis
    unfolding RenderExt_def sd
    by (simp add: nd loop joined_def)
qed

lemma renderCell_dithering:
  assumes "wellFormed ai" "dithering ai = DitheringWithBlocks \<or> dithering ai = DitheringWithChars"
    "0 \<le> fr" "fr < FrameCount ai" "0 \<le> y" "y < h ai" "0 \<le> x" "x < w ai"
  shows "\<exists>s. renderCell ai fr d y x = Return s"
  using assms
  by (auto simp: renderCell_def cell_wellFormed FrameCount_def ANSIpixel_RenderExt_def)

lemma rowLoop_returns:
  assumes "wellFormed ai" "dithering ai = DitheringWithBlocks \<or> dithering ai = DitheringWithChars"
    "0 \<le> fr" "fr < FrameCount ai" "0 \<le> y" "y < h ai"
  shows "0 \<le> x \<Longrightarrow> \<exists>s. rowLoop ai fr d y x str = Return s"
proof (induction "nat (w ai - x)" arbitrary: x str)
  case 0
  then have "\<not> x < w ai" by simp
  then show ?case by (simp add: rowLoop.simps[of ai fr d y x str])
next
  case (Suc k)
  then have x: "x < w ai" "0 \<le> x" by simp_all
  from renderCell_dithering[OF assms(1-4), of y x d] assms(5,6) x
  obtain c where c: "renderCell ai fr d y x = Return c" by auto
  from Suc(2) have "k = nat (w ai - (x + 1))" by simp
  from Suc(1)[OF this, of "str @ c"] x
  obtain s where "rowLoop ai fr d y (x + 1) (str @ c) = Return s" by auto
  then show ?case using x c by (simp add: rowLoop.simps[of ai fr d y x str])
qed

lemma renderRow_returns:
  assumes "wellFormed ai" "dithering ai = DitheringWithBlocks \<or> dithering ai = DitheringWithChars"
    "0 \<le> fr" "fr < FrameCount ai" "0 \<le> r" "r < h ai"
  shows "renderRow ai fr d r = Return (rowText ai fr d r)"
proof -
  from rowLoop_returns[OF assms(1-4), of r 0 d "[]"] assms(5,6)
  obtain s where "renderRow ai fr d r = Return s"
    by (auto simp: renderRow_def)
  then show ?thesis by (simp add: rowText_def)
qed

lemma spawnRows_from:
  assumes "wellFormed ai" "dithering ai = DitheringWithBlocks \<or> dithering ai = DitheringWithChars"
    "0 \<le> fr" "fr < FrameCount ai" "0 \<le> y"
  shows "0 \<le> n \<Longrightarrow>
     spawnRows ai fr d y n (y + n) sent =
       Return (sent @ map (\<lambda>k. (k, rowText ai fr d k))
                        [y + n .. min (y + maxprocs ai) (h ai - 2)])"
proof (induction "nat (maxprocs ai + 1 - n)" arbitrary: n sent)
  case 0
  then have "\<not> n \<le> maxprocs ai" by simp
  then show ?case
    by (simp add: spawnRows.simps[of ai fr d y n "y + n" sent])
next
  case (Suc k)
  then have n: "n \<le> maxprocs ai" "0 \<le> n" by simp_all
  show ?case
  proof (cases "y + n + 1 < h ai")
    case False
    then have "[y + n .. min (y + maxprocs ai) (h ai - 2)] = []" by simp
    with False show ?thesis
      by (simp add: spawnRows.simps[of ai fr d y n "y + n" sent])
  next
    case True
    then have le: "y + n \<le> min (y + maxprocs ai) (h ai - 2)" using n by simp
    have rr: "renderRow ai fr d (y + n) = Return (rowText ai fr d (y + n))"
      using assms n True by (intro renderRow_returns) simp_all
    from Suc(2) have "k = nat (maxprocs ai + 1 - (n + 1))" by simp
    from Suc(1)[OF this, of "sent @ [(y + n, rowText ai fr d (y + n))]"] n
    have ih: "spawnRows ai fr d y (n + 1) (y + (n + 1)) (sent @ [(y + n, rowText ai fr d (y + n))])
      = Return ((sent @ [(y + n, rowText ai fr d (y + n))]) @ map (\<lambda>k. (k, rowText ai fr d k))
                        [y + (n + 1) .. min (y + maxprocs ai) (h ai - 2)])"
      by simp
    have up: "[y + n .. min (y + maxprocs ai) (h ai - 2)]
        = (y + n) # [y + (n + 1) .. min (y + maxprocs ai) (h ai - 2)]"
      using le by (simp add: upto_rec1 add.assoc)
    show ?thesis
      using True n ih
      by (simp add: spawnRows.simps[of ai fr d y n "y + n" sent] rr up add.assoc)
  qed
qed

lemma ditheringLoop_filled:
  assumes wf: "wellFormed ai"
    and dm: "dithering ai = DitheringWithBlocks \<or> dithering ai = DitheringWithChars"
    and fr: "0 \<le> fr" "fr < FrameCount ai" and mp: "1 \<le> maxprocs ai"
  shows "0 \<le> y \<Longrightarrow> a = (if y = 0 then - 1 else min y (h ai - 2)) \<Longrightarrow>
     ditheringLoop ai fr d y (filledFrom (rowText ai fr d) 0 a (nat (h ai)))
     = Some (Return (filledFrom (rowText ai fr d) 0 (h ai - 2) (nat (h ai))))"
proof (induction "nat (h ai - y)" arbitrary: y a rule: less_induct)
  case less
  let ?T = "rowText ai fr d"
  let ?n = "nat (h ai)"
  from wf have h2: "2 \<le> h ai" by (simp add: wellFormed_def)
  show ?case
  proof (cases "y < h ai")
    case False
    then have "a = h ai - 2" using less.prems h2 by simp
    with False show ?thesis by (simp add: ditheringLoop.simps[of ai fr d y])
  next
    case True
    let ?b = "min (y + maxprocs ai) (h ai - 2)"
    have ka: "y \<le> a + 1" using less.prems True by (auto split: if_splits)
    have bn: "?b < int ?n" using h2 by simp
    have "collect (filledFrom ?T 0 a ?n) (map (\<lambda>k. (k, ?T k)) [y .. ?b])
            = Return (filledFrom ?T 0 (max a ?b) ?n)"
      using less.prems ka bn by (intro collect_filled) simp_all
    moreover have "max a ?b = ?b" using less.prems mp h2 by (auto split: if_splits)
    ultimately have win: "andThen (spawnRows ai fr d y 0 y []) (collect (filledFrom ?T 0 a ?n))
               = Return (filledFrom ?T 0 ?b ?n)"
      using spawnRows_from[OF wf dm fr less.prems(1), of 0 d "[]"] by simp
    have "nat (h ai - (y + maxprocs ai)) < nat (h ai - y)" using True mp by simp
    from less.hyps[OF this, of ?b] less.prems mp
    have ih: "ditheringLoop ai fr d (y + maxprocs ai) (filledFrom ?T 0 ?b ?n)
       = Some (Return (filledFrom ?T 0 (h ai - 2) ?n))"
      by simp
    show ?thesis
      using True mp
      by (subst ditheringLoop.simps) (simp add: win ih)
  qed
qed

text \<open>
  In the two dithering modes the text is the rendered rows 0 to \<open>h - 2\<close> in ascending
  order: the slot of the last row, \<open>h - 1\<close>, stays empty.
\<close>

lemma RenderExt_dithering:
  assumes "reachable ai"
    and dm: "dithering ai = DitheringWithBlocks \<or> dithering ai = DitheringWithChars"
    and mp: "1 \<le> maxprocs ai" and fr: "0 \<le> fr" "fr < FrameCount ai"
  shows "RenderExt ai fr d =
     Some (Return (concat (map (\<lambda>r. if int r = h ai - 1 then [] else rowText ai fr d (int r))
                               [0..<nat (h ai)])))"
proof -
  from assms(1) have wf: "wellFormed ai" by (rule reachable_wellFormed)
  let ?T = "rowText ai fr d"
  from wf have h2: "2 \<le> h ai" by (simp add: wellFormed_def)
  have nd: "dithering ai \<noteq> NoDithering"
    using dm by (auto simp: NoDithering_def DitheringWithBlocks_def DitheringWithChars_def)
  have init: "replicate (nat (h ai)) [] = filledFrom ?T 0 (- 1) (nat (h ai))"
  proof -
    have "map (\<lambda>i. if 0 \<le> int i \<and> int i \<le> - 1 then ?T (int i) else []) [0..<nat (h ai)]
        = map (\<lambda>i. []) [0..<nat (h ai)]"
      by (rule map_cong) auto
    then show ?thesis by (simp add: filledFrom_def map_replicate_const)
  qed
  have fin: "filledFrom ?T 0 (h ai - 2) (nat (h ai))
      = map (\<lambda>r. if int r = h ai - 1 then [] else ?T (int r)) [0..<nat (h ai)]"
    unfolding filledFrom_def by (rule map_cong) auto
  have loop: "ditheringLoop ai fr d 0 (replicate (nat (h ai)) [])
      = Some (Return (map (\<lambda>r. if int r = h ai - 1 then [] else ?T (int r)) [0..<nat (h ai)]))"
    using ditheringLoop_filled[OF wf dm fr mp, of 0 "- 1" d]
    unfolding init fin by simp
  have "\<not> h ai < 0" using h2 by simp
  then show ?thesis
    unfolding RenderExt_def
    by (simp add: nd loop joined_def)
qed

lemma rowPairText_not_empty:
  assumes "wellFormed ai" "dithering ai = NoDithering"
    "0 \<le> fr" "fr < FrameCount ai" "0 \<le> r" "2 * r + 1 < h ai"
  shows "rowPairText ai fr d r \<noteq> []"
proof -
  from renderRowPair_returns[OF assms]
  have "rowPairLoop ai fr d (2 * r) 0 [] = Return (rowPairText ai fr d r)"
    by (simp add: renderRowPair_def)
  from rowPairLoop_suffix[OF this] show ?thesis
    by (auto simp: backslashN_def)
qed

lemma rowText_not_empty:
  assumes "wellFormed ai" "dithering ai = DitheringWithBlocks \<or> dithering ai = DitheringWithChars"
    "0 \<le> fr" "fr < FrameCount ai" "0 \<le> r" "r < h ai"
  shows "rowText ai fr d r \<noteq> []"
proof -
  from renderRow_returns[OF assms]
  have "rowLoop ai fr d r 0 [] = Return (rowText ai fr d r)"
    by (simp add: renderRow_def)
  from rowLoop_suffix[OF this] show ?thesis
    by (auto simp: backslashN_def)
qed

section \<open>Properties of the block average\<close>

lemma abs_diff_leD:
  fixes u v e :: real
  assumes "\<bar>u - v\<bar> \<le> e"
  shows "u \<le> v + e" "v - e \<le> u"
  using assms by linarith+

lemma rounded_sum_bound:
  fixes fl :: "real \<Rightarrow> real" and c :: real
  assumes fl: "\<And>v. 1 / 1024 \<le> \<bar>v\<bar> \<Longrightarrow> \<bar>v\<bar> \<le> 1024 \<Longrightarrow> \<bar>fl v - v\<bar> \<le> \<bar>v\<bar> / 2 ^ 53"
    and c: "1 / 4 \<le> c" "c \<le> 1"
  shows "k \<le> 32 \<Longrightarrow> \<bar>((\<lambda>s. fl (s + c)) ^^ k) 0 - real k * c\<bar> \<le> real k / 2 ^ 47"
proof (induction k)
  case 0
  then show ?case by simp
next
  case (Suc k)
  define s where "s = ((\<lambda>s. fl (s + c)) ^^ k) 0"
  from Suc have ih: "\<bar>s - real k * c\<bar> \<le> real k / 2 ^ 47" and k: "k \<le> 31"
    by (simp_all add: s_def)
  have kc: "real k * c \<le> 31" "0 \<le> real k * c"
    using k c by (auto intro: mult_mono[of "real k" 31 c 1, simplified])
  have small: "real k / 2 ^ 47 \<le> 1 / 1000" using k by simp
  note d = abs_diff_leD[OF ih]
  have lo: "1 / 1024 \<le> s + c" and hi: "s + c \<le> 33"
    using d small kc c by linarith+
  then have sb: "1 / 1024 \<le> \<bar>s + c\<bar>" "\<bar>s + c\<bar> \<le> 1024" "\<bar>s + c\<bar> \<le> 33" by linarith+
  have "\<bar>fl (s + c) - (s + c)\<bar> \<le> \<bar>s + c\<bar> / 2 ^ 53" by (rule fl[OF sb(1,2)])
  also have "\<dots> \<le> 33 / 2 ^ 53" using sb(3) by (simp add: divide_right_mono)
  also have "\<dots> \<le> 1 / 2 ^ 47" by simp
  finally have r: "\<bar>fl (s + c) - (s + c)\<bar> \<le> 1 / 2 ^ 47" .
  have "\<bar>fl (s + c) - real (Suc k) * c\<bar> \<le> \<bar>fl (s + c) - (s + c)\<bar> + \<bar>s - real k * c\<bar>"
    by (simp add: algebra_simps)
  also have "\<dots> \<le> 1 / 2 ^ 47 + real k / 2 ^ 47" using r ih by linarith
  also have "\<dots> = real (Suc k) / 2 ^ 47" by (simp add: field_simps)
  finally show ?case by (simp add: s_def)
qed

lemma average_steps:
  fixes fl :: "real \<Rightarrow> real" and c s :: real
  assumes fl: "\<And>v. 1 / 1024 \<le> \<bar>v\<bar> \<Longrightarrow> \<bar>v\<bar> \<le> 1024 \<Longrightarrow> \<bar>fl v - v\<bar> \<le> \<bar>v\<bar> / 2 ^ 53"
    and c: "1 / 4 \<le> c" "c \<le> 1"
    and s: "\<bar>s - 32 * c\<bar> \<le> 32 / 2 ^ 47"
  shows "\<bar>fl (fl (fl (s / 32) * 255) + 1 / 2) - (255 * c + 1 / 2)\<bar> \<le> 1 / 2 ^ 36"
proof -
  define a1 where "a1 = fl (s / 32)"
  define a2 where "a2 = fl (a1 * 255)"
  define a3 where "a3 = fl (a2 + 1 / 2)"
  have p: "(32::real) / 2 ^ 47 \<le> 1 / 1000" "(2::real) / 2 ^ 53 \<le> 1 / 2 ^ 52"
    "(1::real) / 2 ^ 52 + 1 / 2 ^ 47 \<le> 1 / 2 ^ 46" "(1::real) / 2 ^ 46 \<le> 1 / 1000"
    "(512::real) / 2 ^ 53 + 255 / 2 ^ 46 \<le> 1 / 2 ^ 37" "(1::real) / 2 ^ 37 \<le> 1 / 1000"
    "(512::real) / 2 ^ 53 + 1 / 2 ^ 37 \<le> 1 / 2 ^ 36"
    by simp_all
  note ds = abs_diff_leD[OF s]
  have r0: "1 / 1024 \<le> s / 32" "s / 32 \<le> 2" using ds p(1) c by linarith+
  then have b0: "1 / 1024 \<le> \<bar>s / 32\<bar>" "\<bar>s / 32\<bar> \<le> 1024" "\<bar>s / 32\<bar> \<le> 2" by linarith+
  have "\<bar>a1 - s / 32\<bar> \<le> \<bar>s / 32\<bar> / 2 ^ 53" unfolding a1_def by (rule fl[OF b0(1,2)])
  also have "\<dots> \<le> 2 / 2 ^ 53" using b0(3) by (simp add: divide_right_mono)
  finally have "\<bar>a1 - s / 32\<bar> \<le> 2 / 2 ^ 53" .
  note d1 = abs_diff_leD[OF this]
  have e1: "\<bar>a1 - c\<bar> \<le> 1 / 2 ^ 46" using d1 ds p(2,3) by linarith
  note de1 = abs_diff_leD[OF e1]
  have r1: "1 / 1024 \<le> a1 * 255" "a1 * 255 \<le> 512" using de1 p(4) c by linarith+
  then have b1: "1 / 1024 \<le> \<bar>a1 * 255\<bar>" "\<bar>a1 * 255\<bar> \<le> 1024" "\<bar>a1 * 255\<bar> \<le> 512" by linarith+
  have "\<bar>a2 - a1 * 255\<bar> \<le> \<bar>a1 * 255\<bar> / 2 ^ 53" unfolding a2_def by (rule fl[OF b1(1,2)])
  also have "\<dots> \<le> 512 / 2 ^ 53" using b1(3) by (simp add: divide_right_mono)
  finally have "\<bar>a2 - a1 * 255\<bar> \<le> 512 / 2 ^ 53" .
  note d2 = abs_diff_leD[OF this]
  have e2: "\<bar>a2 - 255 * c\<bar> \<le> 1 / 2 ^ 37" using d2 de1 p(5) by linarith
  note de2 = abs_diff_leD[OF e2]
  have r2: "1 / 1024 \<le> a2 + 1 / 2" "a2 + 1 / 2 \<le> 512" using de2 p(6) c by linarith+
  then have b2: "1 / 1024 \<le> \<bar>a2 + 1 / 2\<bar>" "\<bar>a2 + 1 / 2\<bar> \<le> 1024" "\<bar>a2 + 1 / 2\<bar> \<le> 512" by linarith+
  have "\<bar>a3 - (a2 + 1 / 2)\<bar> \<le> \<bar>a2 + 1 / 2\<bar> / 2 ^ 53" unfolding a3_def by (rule fl[OF b2(1,2)])
  also have "\<dots> \<le> 512 / 2 ^ 53" using b2(3) by (simp add: divide_right_mono)
  finally have "\<bar>a3 - (a2 + 1 / 2)\<bar> \<le> 512 / 2 ^ 53" .
  note d3 = abs_diff_leD[OF this]
  have "\<bar>a3 - (255 * c + 1 / 2)\<bar> \<le> 1 / 2 ^ 36" using d3 de2 p(7) by linarith
  then show ?thesis by (simp add: a1_def a2_def a3_def)
qed

lemma near_unit:
  fixes c n :: real
  assumes "\<bar>c - n / 255\<bar> \<le> 1 / 2 ^ 50" "64 \<le> n" "n \<le> 254"
  shows "1 / 4 \<le> c" "c \<le> 1"
proof -
  have p: "(1::real) / 2 ^ 50 \<le> 1 / 10000" by simp
  note d = abs_diff_leD[OF assms(1)]
  show "1 / 4 \<le> c" using d p assms(2) by linarith
  show "c \<le> 1" using d p assms(3) by linarith
qed

lemma near_floor:
  fixes a c n :: real
  assumes "\<bar>a - (255 * c + 1 / 2)\<bar> \<le> 1 / 2 ^ 36" "\<bar>c - n / 255\<bar> \<le> 1 / 2 ^ 50"
  shows "n \<le> a" "a < n + 1"
proof -
  have p: "(1::real) / 2 ^ 36 \<le> 1 / 1000" "255 * ((1::real) / 2 ^ 50) \<le> 1 / 1000" by simp_all
  note d = abs_diff_leD[OF assms(1)] abs_diff_leD[OF assms(2)]
  show "n \<le> a" using d p by linarith
  show "a < n + 1" using d p by linarith
qed

lemma length_blockPoints: "length (blockPoints y x) = 32"
  by (simp add: blockPoints_def BlockSizeX_def BlockSizeY_def length_concat comp_def sum_list_triv)

lemma foldl_accumulate_uniform:
  assumes "\<forall>p \<in> set pts. colorful_RGBV ext (RGBAAt img (fst p) (snd p)) = (cr, cg, cb, cv)"
  shows "foldl (accumulate ext img) (s1, s2, s3, s4) pts =
     (((\<lambda>s. float64_round ext (s + cr)) ^^ length pts) s1,
      ((\<lambda>s. float64_round ext (s + cg)) ^^ length pts) s2,
      ((\<lambda>s. float64_round ext (s + cb)) ^^ length pts) s3,
      ((\<lambda>s. float64_round ext (s + cv)) ^^ length pts) s4)"
  using assms
proof (induction pts arbitrary: s1 s2 s3 s4)
  case Nil
  then show ?case by simp
next
  case (Cons p pts)
  obtain px py where p: "p = (px, py)" by (cases p)
  from Cons.prems have c: "colorful_RGBV ext (RGBAAt img px py) = (cr, cg, cb, cv)"
    by (simp add: p)
  have step: "accumulate ext img (s1, s2, s3, s4) p =
      (float64_round ext (s1 + cr), float64_round ext (s2 + cg),
       float64_round ext (s3 + cb), float64_round ext (s4 + cv))"
    by (simp add: accumulate_def p c)
  from Cons.prems have rest: "\<forall>p \<in> set pts. colorful_RGBV ext (RGBAAt img (fst p) (snd p)) = (cr, cg, cb, cv)"
    by simp
  show ?case
    by (simp add: step Cons.IH[OF rest] funpow_Suc_right del: funpow.simps)
qed

lemma quantize_channel:
  assumes fl: "\<And>v. 1 / 1024 \<le> \<bar>v\<bar> \<Longrightarrow> \<bar>v\<bar> \<le> 1024 \<Longrightarrow>
            \<bar>float64_round ext v - v\<bar> \<le> \<bar>v\<bar> / 2 ^ 53"
    and c: "1 / 4 \<le> c" "c \<le> 1"
  shows "\<exists>a. average ext (((\<lambda>s. float64_round ext (s + c)) ^^ 32) 0) = uint8_of_float a
           \<and> \<bar>a - (255 * c + 1 / 2)\<bar> \<le> 1 / 2 ^ 36"
proof -
  let ?s = "((\<lambda>s. float64_round ext (s + c)) ^^ 32) 0"
  have "\<bar>?s - real 32 * c\<bar> \<le> real 32 / 2 ^ 47"
    by (rule rounded_sum_bound[of "float64_round ext", OF fl c]) simp_all
  then have "\<bar>?s - 32 * c\<bar> \<le> 32 / 2 ^ 47"
    by simp
  from average_steps[of "float64_round ext", OF fl c this]
  have "\<bar>float64_round ext (float64_round ext (float64_round ext (?s / 32) * 255) + 1 / 2)
          - (255 * c + 1 / 2)\<bar> \<le> 1 / 2 ^ 36"
    by simp
  moreover have "average ext ?s =
      uint8_of_float
        (float64_round ext (float64_round ext (float64_round ext (?s / 32) * 255) + 1 / 2))"
    by (simp add: average_def BlockSizeX_def BlockSizeY_def)
  ultimately show ?thesis by blast
qed

lemma uint8_of_float_between:
  assumes "real_of_int n \<le> a" "a < real_of_int n + 1" "0 \<le> n"
  shows "uint8_of_float a = word_of_int n"
proof -
  have "\<lfloor>a\<rfloor> = n" using assms by (simp add: floor_eq_iff)
  moreover have "0 \<le> a" using assms by linarith
  ultimately show ?thesis by (simp add: uint8_of_float_def)
qed

lemma quantize_colour_channel:
  assumes fl: "\<And>v. 1 / 1024 \<le> \<bar>v\<bar> \<Longrightarrow> \<bar>v\<bar> \<le> 1024 \<Longrightarrow>
            \<bar>float64_round ext v - v\<bar> \<le> \<bar>v\<bar> / 2 ^ 53"
    and c: "\<bar>c - real_of_int n / 255\<bar> \<le> 1 / 2 ^ 50" and n: "64 \<le> n" "n \<le> 254"
  shows "average ext (((\<lambda>s. float64_round ext (s + c)) ^^ 32) 0) = word_of_int n"
proof -
  have n': "64 \<le> real_of_int n" "real_of_int n \<le> 254" using n by simp_all
  have c01: "1 / 4 \<le> c" "c \<le> 1"
    using near_unit[OF c n'] by simp_all
  from quantize_channel[OF fl c01] obtain a where
    avg: "average ext (((\<lambda>s. float64_round ext (s + c)) ^^ 32) 0) = uint8_of_float a"
    and a: "\<bar>a - (255 * c + 1 / 2)\<bar> \<le> 1 / 2 ^ 36"
    by blast
  have "real_of_int n \<le> a" "a < real_of_int n + 1"
    using near_floor[OF a c] by simp_all
  then have "uint8_of_float a = word_of_int n"
    using n by (intro uint8_of_float_between) simp_all
  with avg show ?thesis by simp
qed

lemma quantizeBlock_uniform:
  assumes "\<forall>p \<in> set (blockPoints y x).
             colorful_RGBV ext (RGBAAt img (fst p) (snd p)) = (cr, cg, cb, cv)"
  shows "quantizeBlock ext img y x =
     (average ext (((\<lambda>s. float64_round ext (s + cr)) ^^ 32) 0),
      average ext (((\<lambda>s. float64_round ext (s + cg)) ^^ 32) 0),
      average ext (((\<lambda>s. float64_round ext (s + cb)) ^^ 32) 0),
      average ext (((\<lambda>s. float64_round ext (s + cv)) ^^ 32) 0))"
  unfolding quantizeBlock_def foldl_accumulate_uniform[OF assms] length_blockPoints
  by simp

lemma SetAt_then_GetAt:
  assumes wf: "wellFormed ai"
    and rng: "0 \<le> fr" "fr < FrameCount ai" "0 \<le> y" "y < h ai" "0 \<le> x" "x < w ai"
  shows "\<exists>ai'. SetAt ai fr y x r g b bri = Return (ai', None) \<and>
           GetAt ai' fr y x =
             Return \<lparr>Brightness = bri, R = r, G = g, B = b,
                     upper = (dithering ai = NoDithering \<and> y smod 2 = 0)\<rparr>"
proof -
  define q where "q = (frame ai ! nat fr ! nat y ! nat x)\<lparr>R := r, G := g, B := b,
           Brightness := bri, upper := (dithering ai = NoDithering \<and> y smod 2 = 0)\<rparr>"
  have c: "cell ai fr y x = Some (frame ai ! nat fr ! nat y ! nat x)"
    using rng by (simp add: cell_wellFormed[OF wf] FrameCount_def)
  have set: "SetAt ai fr y x r g b bri = Return (putCell ai fr y x q, None)"
    using rng wf by (simp add: SetAt_in_grid q_def)
  have "cell (putCell ai fr y x q) fr y x = Some q"
    by (simp add: cell_putCell[OF c])
  then have "GetAt (putCell ai fr y x q) fr y x =
      Return \<lparr>Brightness = Brightness q, R = R q, G = G q, B = B q, upper = upper q\<rparr>"
    using rng by (simp add: GetAt_def)
  then have "GetAt (putCell ai fr y x q) fr y x =
      Return \<lparr>Brightness = bri, R = r, G = g, B = b,
              upper = (dithering ai = NoDithering \<and> y smod 2 = 0)\<rparr>"
    by (simp add: q_def)
  with set show ?thesis by blast
qed

lemma set_blockPoints:
  "p \<in> set (blockPoints y x) \<longleftrightarrow>
     (\<exists>dy dx. 0 \<le> dy \<and> dy < 8 \<and> 0 \<le> dx \<and> dx < 4 \<and> p = (4 * x + dx, 8 * y + dy))"
proof
  assume "p \<in> set (blockPoints y x)"
  then obtain i j where "i < 8" "j < 4" "p = (4 * x + int j, 8 * y + int i)"
    by (auto simp: blockPoints_def BlockSizeX_def BlockSizeY_def)
  then show "\<exists>dy dx. 0 \<le> dy \<and> dy < 8 \<and> 0 \<le> dx \<and> dx < 4 \<and> p = (4 * x + dx, 8 * y + dy)"
    by (intro exI[of _ "int i"] exI[of _ "int j"]) simp
next
  assume "\<exists>dy dx. 0 \<le> dy \<and> dy < 8 \<and> 0 \<le> dx \<and> dx < 4 \<and> p = (4 * x + dx, 8 * y + dy)"
  then obtain dy dx where d: "0 \<le> dy" "dy < 8" "0 \<le> dx" "dx < 4"
    and p: "p = (4 * x + dx, 8 * y + dy)"
    by blast
  have "(4 * x + int (nat dx), 8 * y + int (nat dy)) \<in> set (blockPoints y x)"
    using d unfolding blockPoints_def BlockSizeX_def BlockSizeY_def
    by (auto intro!: bexI[of _ "nat dy"] image_eqI[of _ _ "nat dx"])
  then show "p \<in> set (blockPoints y x)" using d p by simp
qed

text \<open>
  The block of 32 opaque pixels of RGB (100, 150, 200), with the brightness of a pixel
  being the largest of its three channels, as the \<open>v\<close> of \<open>Hsv\<close> is.
\<close>

lemma quantizeBlock_blue:
  assumes fl: "\<And>v. 1 / 1024 \<le> \<bar>v\<bar> \<Longrightarrow> \<bar>v\<bar> \<le> 1024 \<Longrightarrow>
            \<bar>float64_round ext v - v\<bar> \<le> \<bar>v\<bar> / 2 ^ 53"
    and px: "\<And>dy dx. 0 \<le> dy \<Longrightarrow> dy < 8 \<Longrightarrow> 0 \<le> dx \<Longrightarrow> dx < 4 \<Longrightarrow>
               RGBAAt rgbaOut (4 * x + dx) (8 * y + dy) = (100, 150, 200, 255)"
    and conv: "colorful_RGBV ext (100, 150, 200, 255) = (cr, cg, cb, cv)"
    and near: "\<bar>cr - 100 / 255\<bar> \<le> 1 / 2 ^ 50" "\<bar>cg - 150 / 255\<bar> \<le> 1 / 2 ^ 50"
      "\<bar>cb - 200 / 255\<bar> \<le> 1 / 2 ^ 50"
    and hsv: "cv = max cr (max cg cb)"
  shows "quantizeBlock ext rgbaOut y x = (100, 150, 200, 200)"
proof -
  have "\<forall>p \<in> set (blockPoints y x).
      colorful_RGBV ext (RGBAAt rgbaOut (fst p) (snd p)) = (cr, cg, cb, cv)"
    using px conv by (auto simp: set_blockPoints)
  note q = quantizeBlock_uniform[OF this]
  have p: "(1::real) / 2 ^ 50 \<le> 1 / 1000" by simp
  note d = abs_diff_leD[OF near(1)] abs_diff_leD[OF near(2)] abs_diff_leD[OF near(3)]
  have "cr \<le> cb" "cg \<le> cb" using d p by linarith+
  then have cv: "cv = cb" using hsv by simp
  have r: "average ext (((\<lambda>s. float64_round ext (s + cr)) ^^ 32) 0) = 100"
    using quantize_colour_channel[OF fl, of cr 100] near(1) by simp
  have g: "average ext (((\<lambda>s. float64_round ext (s + cg)) ^^ 32) 0) = 150"
    using quantize_colour_channel[OF fl, of cg 150] near(2) by simp
  have b: "average ext (((\<lambda>s. float64_round ext (s + cb)) ^^ 32) 0) = 200"
    using quantize_colour_channel[OF fl, of cb 200] near(3) by simp
  show ?thesis unfolding q cv r g b ..
qed

lemma sample_round: "float64_round sampleExternals = (\<lambda>v. v)"
  by (simp add: sampleExternals_def)

lemma sample_conversion:
  "colorful_RGBV sampleExternals (100, 150, 200, 255) = (100 / 255, 150 / 255, 200 / 255, 200 / 255)"
  by (simp add: sampleExternals_def)

lemma patchBuffer_block:
  "0 \<le> dy \<Longrightarrow> dy < 8 \<Longrightarrow> 0 \<le> dx \<Longrightarrow> dx < 4 \<Longrightarrow>
     RGBAAt patchBuffer (4 * 1 + dx) (8 * 1 + dy) = (100, 150, 200, 255)"
  by (simp add: RGBAAt_def patchBuffer_def)

lemma quantizeBlock_patch: "quantizeBlock sampleExternals patchBuffer 1 1 = (100, 150, 200, 200)"
  by (rule quantizeBlock_blue[OF _ patchBuffer_block sample_conversion])
    (simp_all add: sample_round)

section \<open>Claims\<close>

text \<open>
  Claim C1, at a failing input. The image \<open>New(2, 2, 1, color.Black, dm)\<close> has one terminal
  row without dithering and two rows in a dithering mode. Without dithering the first
  row rendered is \<open>r = y + 1 = 1\<close>, so row 0 is never rendered and the text is empty. In
  block mode the loop stops at \<open>r + 1 < h\<close>, so the last row is never rendered and the
  text holds row 0 alone. Lemmas \<open>RenderExt_NoDithering\<close> and \<open>RenderExt_dithering\<close> show
  the same for every image and every parallelism bound from 1 up.
\<close>

theorem render_leaves_a_row_out:
  "RenderExt (sampleImage NoDithering) 0 False = Some (Return [])
   \<and> RenderExt (sampleImage DitheringWithBlocks) 0 False =
       Some (Return (CHR 0x1B # ''[48;2;0;0;0m'' @ CHR 0x1B # ''[38;2;0;0;0m'' @ '' ''
                   @ CHR 0x1B # ''[48;2;0;0;0m'' @ CHR 0x1B # ''[38;2;0;0;0m'' @ '' ''
                   @ CHR 0x1B # ''[0m'' @ [CHR 0x0A]))"
proof -
  have nd: "RenderExt (sampleImage NoDithering) 0 False = Some (Return [])"
    by (simp add: RenderExt_def sample_fields noDitheringLoop.simps spawnRowPairs.simps
        joined_def signed_divide_int_def)
  have sp: "spawnRows (sampleImage DitheringWithBlocks) 0 False 0 0 0 [] =
      Return [(0, CHR 0x1B # ''[48;2;0;0;0m'' @ CHR 0x1B # ''[38;2;0;0;0m'' @ '' ''
                   @ CHR 0x1B # ''[48;2;0;0;0m'' @ CHR 0x1B # ''[38;2;0;0;0m'' @ '' ''
                   @ CHR 0x1B # ''[0m'' @ [CHR 0x0A])]"
    by (simp add: spawnRows.simps sample_fields renderRow_sample)
  have sp1: "spawnRows (sampleImage DitheringWithBlocks) 0 False 1 0 1 [] = Return []"
    by (simp add: spawnRows.simps sample_fields)
  have d: "RenderExt (sampleImage DitheringWithBlocks) 0 False =
       Some (Return (CHR 0x1B # ''[48;2;0;0;0m'' @ CHR 0x1B # ''[38;2;0;0;0m'' @ '' ''
                   @ CHR 0x1B # ''[48;2;0;0;0m'' @ CHR 0x1B # ''[38;2;0;0;0m'' @ '' ''
                   @ CHR 0x1B # ''[0m'' @ [CHR 0x0A]))"
  proof -
    have ne: "DitheringWithBlocks \<noteq> NoDithering"
      by (simp add: NoDithering_def DitheringWithBlocks_def)
    show ?thesis
      by (simp add: RenderExt_def sample_fields ne ditheringLoop.simps sp sp1 joined_def
          eval_nat_numeral)
  qed
  from nd d show ?thesis by (intro conjI)
qed

text \<open>
  Claim C2, at a failing input. A GIF of two identical white frames of 4 by 8 pixels, read
  in block dithering mode over a black background: the frame loop divides \<open>yMax\<close> and
  \<open>xMax\<close> by the block size again in every iteration, so frame 0 is quantized over one
  cell, which becomes white, and frame 1 over none, its cell staying black.
\<close>

theorem region_divided_for_every_frame:
  "NewFromReader sampleExternals (Encoded twoWhiteFrames) Black DitheringWithBlocks
     = Return (firstFrameDone\<lparr>delay := [10, 10]\<rparr>)
   \<and> GetAt (firstFrameDone\<lparr>delay := [10, 10]\<rparr>) 0 0 0
       = Return \<lparr>Brightness = 255, R = 255, G = 255, B = 255, upper = False\<rparr>
   \<and> GetAt (firstFrameDone\<lparr>delay := [10, 10]\<rparr>) 1 0 0
       = Return \<lparr>Brightness = 0, R = 0, G = 0, B = 0, upper = False\<rparr>
   \<and> truncateBounds DitheringWithBlocks (8, 4) = (1, 1)
   \<and> truncateBounds DitheringWithBlocks (truncateBounds DitheringWithBlocks (8, 4)) = (0, 0)"
proof -
  have c0: "cell blankImage 0 0 0 = Some (newPixel DitheringWithBlocks 0)"
    and c1: "cell blankImage 1 0 0 = Some (newPixel DitheringWithBlocks 0)"
    by (simp_all add: cell_New[OF New_blankImage])
  have "cell (blankImage\<lparr>delay := [10, 0]\<rparr>) 0 0 0 = Some (newPixel DitheringWithBlocks 0)"
    using c0 by simp
  note upd = cell_putCell[OF this]
  have g0: "GetAt (firstFrameDone\<lparr>delay := [10, 10]\<rparr>) 0 0 0
       = Return \<lparr>Brightness = 255, R = 255, G = 255, B = 255, upper = False\<rparr>"
    by (simp add: GetAt_def firstFrameDone_def upd blankImage_fields)
  have g1: "GetAt (firstFrameDone\<lparr>delay := [10, 10]\<rparr>) 1 0 0
       = Return \<lparr>Brightness = 0, R = 0, G = 0, B = 0, upper = False\<rparr>"
    by (simp add: GetAt_def firstFrameDone_def upd blankImage_fields c1 newPixel_def
        NoDithering_def DitheringWithBlocks_def)
  have t: "truncateBounds DitheringWithBlocks (8, 4) = (1, 1)"
    "truncateBounds DitheringWithBlocks (1, 1) = (0, 0)"
    by (simp_all add: truncateBounds_def NoDithering_def DitheringWithBlocks_def
        BlockSizeX_def BlockSizeY_def signed_divide_int_def)
  show ?thesis
    using NewFromReader_two_frames g0 g1 t by simp
qed

text \<open>
  Claim C3, as the code has it. An odd height without dithering, and a height or width
  below 2, are rejected by \<open>New\<close> with the errors \<open>ErrHeightNonMoT\<close> and
  \<open>ErrInvalidBoundsMoT\<close>; \<open>createANSImage\<close> calls \<open>New\<close> once, before its frame loop, and
  returns that error to the caller whatever the frames hold. The two readers return it
  in turn, on a stream that decodes to at least one frame and has a delay for every
  frame: \<open>NewFromReader\<close> for the lower right corner of the first frame's rectangle (the
  drawing leaves the rectangle of its destination alone), \<open>NewScaledFromReader\<close> for the
  lower right corner \<open>b\<close> of the first frame as the scaling function returned it, after
  every frame has been drawn and scaled. The requested size \<open>(y, x)\<close> itself is never
  compared with anything: it is rejected when the scaled frame has exactly that size.
  An unknown scale mode is not returned as an error: \<open>NewScaledFromReader\<close> panics with
  \<open>errUnknownScaleMode\<close> in the \<open>switch\<close> of its frame loop, at the first frame, whatever
  the requested size.
\<close>

theorem construction_rejects_bad_dimensions:
  assumes frames: "GIF_Image gif = p # ps"
    and delays: "length (GIF_Image gif) \<le> length (GIF_Delay gif)"
    and rect: "MinX (Bounds p) \<le> MaxX (Bounds p)" "MinY (Bounds p) \<le> MaxY (Bounds p)"
    and b: "Bounds (scaled ext sm (firstComposed ext p) x y) = b"
  shows
  "(dm = NoDithering \<and> odd hh \<longrightarrow> New hh ww n bg dm = Error ErrHeightNonMoT)
   \<and> (\<not> (dm = NoDithering \<and> odd hh) \<and> (hh < 2 \<or> ww < 2) \<longrightarrow>
        New hh ww n bg dm = Error ErrInvalidBoundsMoT)
   \<and> (proxy_image g = first # rest \<and>
        New (MaxY (Bounds first)) (MaxX (Bounds first)) (int (length (proxy_image g))) bg dm
          = Error e \<longrightarrow>
        createANSImage ext g bg dm = Error e)
   \<and> ((\<forall>dst r src op. Bounds (draw_Draw ext dst r src op) = Bounds dst) \<and>
        dm = NoDithering \<and> odd (MaxY (Bounds p)) \<longrightarrow>
        NewFromReader ext (Encoded gif) bg dm = Error ErrHeightNonMoT)
   \<and> ((\<forall>dst r src op. Bounds (draw_Draw ext dst r src op) = Bounds dst) \<and>
        \<not> (dm = NoDithering \<and> odd (MaxY (Bounds p))) \<and>
        (MaxY (Bounds p) < 2 \<or> MaxX (Bounds p) < 2) \<longrightarrow>
        NewFromReader ext (Encoded gif) bg dm = Error ErrInvalidBoundsMoT)
   \<and> ((sm = ScaleModeResize \<or> sm = ScaleModeFill \<or> sm = ScaleModeFit) \<and>
        dm = NoDithering \<and> odd (MaxY b) \<longrightarrow>
        NewScaledFromReader ext (Encoded gif) y x bg sm dm = Error ErrHeightNonMoT)
   \<and> ((sm = ScaleModeResize \<or> sm = ScaleModeFill \<or> sm = ScaleModeFit) \<and>
        \<not> (dm = NoDithering \<and> odd (MaxY b)) \<and> (MaxY b < 2 \<or> MaxX b < 2) \<longrightarrow>
        NewScaledFromReader ext (Encoded gif) y x bg sm dm = Error ErrInvalidBoundsMoT)
   \<and> ((sm = ScaleModeResize \<or> sm = ScaleModeFill \<or> sm = ScaleModeFit) \<and>
        MaxY b = y \<and> MaxX b = x \<and> dm = NoDithering \<and> odd y \<longrightarrow>
        NewScaledFromReader ext (Encoded gif) y x bg sm dm = Error ErrHeightNonMoT)
   \<and> ((sm = ScaleModeResize \<or> sm = ScaleModeFill \<or> sm = ScaleModeFit) \<and>
        MaxY b = y \<and> MaxX b = x \<and> \<not> (dm = NoDithering \<and> odd y) \<and> (y < 2 \<or> x < 2) \<longrightarrow>
        NewScaledFromReader ext (Encoded gif) y x bg sm dm = Error ErrInvalidBoundsMoT)
   \<and> (sm \<noteq> ScaleModeResize \<and> sm \<noteq> ScaleModeFill \<and> sm \<noteq> ScaleModeFit \<longrightarrow>
        NewScaledFromReader ext (Encoded gif) y x bg sm dm
          = Panic (PanicError errUnknownScaleMode))"
proof -
  let ?n = "int (length (GIF_Image gif))"
  note from_reader = NewFromReader_New_error[OF _ frames delays rect]
  note from_scaled = NewScaledFromReader_New_error[where ext = ext and sm = sm and x = x and y = y,
      OF _ frames delays rect, unfolded b]
  have 1: "dm = NoDithering \<and> odd hh \<longrightarrow> New hh ww n bg dm = Error ErrHeightNonMoT"
    using New_rejects[of dm hh ww n bg] by blast
  have 2: "\<not> (dm = NoDithering \<and> odd hh) \<and> (hh < 2 \<or> ww < 2) \<longrightarrow>
        New hh ww n bg dm = Error ErrInvalidBoundsMoT"
    using New_rejects[of dm hh ww n bg] by blast
  have 3: "proxy_image g = first # rest \<and>
        New (MaxY (Bounds first)) (MaxX (Bounds first)) (int (length (proxy_image g))) bg dm
          = Error e \<longrightarrow>
        createANSImage ext g bg dm = Error e"
    by (auto intro: createANSImage_New_error)
  have 4: "(\<forall>dst r src op. Bounds (draw_Draw ext dst r src op) = Bounds dst) \<and>
        dm = NoDithering \<and> odd (MaxY (Bounds p)) \<longrightarrow>
        NewFromReader ext (Encoded gif) bg dm = Error ErrHeightNonMoT"
    using New_rejects[of dm "MaxY (Bounds p)" "MaxX (Bounds p)" ?n bg]
    by (auto intro!: from_reader)
  have 5: "(\<forall>dst r src op. Bounds (draw_Draw ext dst r src op) = Bounds dst) \<and>
        \<not> (dm = NoDithering \<and> odd (MaxY (Bounds p))) \<and>
        (MaxY (Bounds p) < 2 \<or> MaxX (Bounds p) < 2) \<longrightarrow>
        NewFromReader ext (Encoded gif) bg dm = Error ErrInvalidBoundsMoT"
    using New_rejects[of dm "MaxY (Bounds p)" "MaxX (Bounds p)" ?n bg]
    by (intro impI from_reader) blast+
  have 6: "(sm = ScaleModeResize \<or> sm = ScaleModeFill \<or> sm = ScaleModeFit) \<and>
        dm = NoDithering \<and> odd (MaxY b) \<longrightarrow>
        NewScaledFromReader ext (Encoded gif) y x bg sm dm = Error ErrHeightNonMoT"
    using New_rejects[of dm "MaxY b" "MaxX b" ?n bg]
    by (intro impI from_scaled) blast+
  have 7: "(sm = ScaleModeResize \<or> sm = ScaleModeFill \<or> sm = ScaleModeFit) \<and>
        \<not> (dm = NoDithering \<and> odd (MaxY b)) \<and> (MaxY b < 2 \<or> MaxX b < 2) \<longrightarrow>
        NewScaledFromReader ext (Encoded gif) y x bg sm dm = Error ErrInvalidBoundsMoT"
    using New_rejects[of dm "MaxY b" "MaxX b" ?n bg]
    by (intro impI from_scaled) blast+
  have 8: "(sm = ScaleModeResize \<or> sm = ScaleModeFill \<or> sm = ScaleModeFit) \<and>
        MaxY b = y \<and> MaxX b = x \<and> dm = NoDithering \<and> odd y \<longrightarrow>
        NewScaledFromReader ext (Encoded gif) y x bg sm dm = Error ErrHeightNonMoT"
    using 6 by blast
  have 9: "(sm = ScaleModeResize \<or> sm = ScaleModeFill \<or> sm = ScaleModeFit) \<and>
        MaxY b = y \<and> MaxX b = x \<and> \<not> (dm = NoDithering \<and> odd y) \<and> (y < 2 \<or> x < 2) \<longrightarrow>
        NewScaledFromReader ext (Encoded gif) y x bg sm dm = Error ErrInvalidBoundsMoT"
    using 7 by blast
  have 10: "sm \<noteq> ScaleModeResize \<and> sm \<noteq> ScaleModeFill \<and> sm \<noteq> ScaleModeFit \<longrightarrow>
        NewScaledFromReader ext (Encoded gif) y x bg sm dm
          = Panic (PanicError errUnknownScaleMode)"
  proof
    assume a: "sm \<noteq> ScaleModeResize \<and> sm \<noteq> ScaleModeFill \<and> sm \<noteq> ScaleModeFit"
    from frames delays have len: "(0::int) < int (length (GIF_Delay gif))" by auto
    have dec: "DecodeAll (Encoded gif) = Inr gif"
      using frames by (simp add: DecodeAll_def)
    obtain img where img: "NewRGBA (Bounds p) = Return img"
      using rect by (simp add: NewRGBA_def)
    have "scaleLoop ext sm y x (Bounds p) (GIF_Delay gif) 0 (p # ps)
            (img, [], replicate (length (GIF_Delay gif)) 0)
          = Panic (PanicError errUnknownScaleMode)"
      using a len by (intro scaleLoop_unknown) simp_all
    then show "NewScaledFromReader ext (Encoded gif) y x bg sm dm
            = Panic (PanicError errUnknownScaleMode)"
      by (simp add: NewScaledFromReader_def dec frames img del: scaleLoop.simps)
  qed
  from 1 2 3 4 5 6 7 8 9 10 show ?thesis by (intro conjI)
qed

theorem construction_rejects_bad_dimensions_witness:
  "New 3 2 1 Black NoDithering = Error ErrHeightNonMoT
   \<and> New 1 2 1 Black DitheringWithBlocks = Error ErrInvalidBoundsMoT
   \<and> createANSImage sampleExternals
        \<lparr>proxy_image = [uniformFrame 3 2 white], proxy_delay = [10]\<rparr> Black NoDithering
       = Error ErrHeightNonMoT
   \<and> NewFromReader sampleExternals
        (Encoded \<lparr>GIF_Image = [uniformFrame 3 2 white], GIF_Delay = [10]\<rparr>) Black NoDithering
       = Error ErrHeightNonMoT
   \<and> NewFromReader sampleExternals
        (Encoded \<lparr>GIF_Image = [uniformFrame 1 2 white], GIF_Delay = [10]\<rparr>) Black
        DitheringWithBlocks
       = Error ErrInvalidBoundsMoT
   \<and> NewScaledFromReader sampleExternals
        (Encoded \<lparr>GIF_Image = [uniformFrame 3 3 white], GIF_Delay = [10]\<rparr>) 4 4 Black
        ScaleModeFit NoDithering
       = Error ErrHeightNonMoT
   \<and> NewScaledFromReader sampleExternals
        (Encoded \<lparr>GIF_Image = [uniformFrame 1 1 white], GIF_Delay = [10]\<rparr>) 8 8 Black
        ScaleModeFit DitheringWithBlocks
       = Error ErrInvalidBoundsMoT
   \<and> NewScaledFromReader sampleExternals (Encoded oneSmallFrame) 3 2 Black ScaleModeResize
        NoDithering
       = Error ErrHeightNonMoT
   \<and> NewScaledFromReader sampleExternals (Encoded oneSmallFrame) 1 2 Black ScaleModeFill
        DitheringWithBlocks
       = Error ErrInvalidBoundsMoT
   \<and> NewScaledFromReader sampleExternals (Encoded oneSmallFrame) 2 2 Black 7 NoDithering
       = Panic (PanicError errUnknownScaleMode)"
proof -
  note t = construction_rejects_bad_dimensions[where ext = sampleExternals and bg = Black
      and ps = "[]"]
  note defs = oneSmallFrame_def uniformFrame_def scaled_def firstComposed_def
    sampleExternals_def ScaleModeResize_def ScaleModeFill_def ScaleModeFit_def
    NoDithering_def DitheringWithBlocks_def
  note small = t[where gif = oneSmallFrame and p = "uniformFrame 2 2 white"]
  have 1: "New 3 2 1 Black NoDithering = Error ErrHeightNonMoT"
    using small[where dm = NoDithering and hh = 3 and ww = 2 and n = 1 and sm = ScaleModeFit
        and x = 2 and y = 2 and b = "\<lparr>MinX = 0, MinY = 0, MaxX = 2, MaxY = 2\<rparr>"]
    by (simp add: oneSmallFrame_def uniformFrame_def scaled_def firstComposed_def
        sampleExternals_def)
  have 2: "New 1 2 1 Black DitheringWithBlocks = Error ErrInvalidBoundsMoT"
    using small[where dm = DitheringWithBlocks and hh = 1 and ww = 2 and n = 1
        and sm = ScaleModeFit and x = 2 and y = 2
        and b = "\<lparr>MinX = 0, MinY = 0, MaxX = 2, MaxY = 2\<rparr>"]
    by (simp add: defs)
  have 3: "createANSImage sampleExternals
        \<lparr>proxy_image = [uniformFrame 3 2 white], proxy_delay = [10]\<rparr> Black NoDithering
       = Error ErrHeightNonMoT"
    using small[where g = "\<lparr>proxy_image = [uniformFrame 3 2 white], proxy_delay = [10]\<rparr>"
        and first = "uniformFrame 3 2 white" and rest = "[]"
        and dm = NoDithering and e = ErrHeightNonMoT and sm = ScaleModeFit and x = 2 and y = 2
        and b = "\<lparr>MinX = 0, MinY = 0, MaxX = 2, MaxY = 2\<rparr>"] 1
    by (simp add: oneSmallFrame_def uniformFrame_def scaled_def firstComposed_def
        sampleExternals_def)
  have 4: "NewFromReader sampleExternals
        (Encoded \<lparr>GIF_Image = [uniformFrame 3 2 white], GIF_Delay = [10]\<rparr>) Black NoDithering
       = Error ErrHeightNonMoT"
    using t[where gif = "\<lparr>GIF_Image = [uniformFrame 3 2 white], GIF_Delay = [10]\<rparr>"
        and p = "uniformFrame 3 2 white" and dm = NoDithering and sm = ScaleModeResize
        and x = 2 and y = 2 and b = "\<lparr>MinX = 0, MinY = 0, MaxX = 2, MaxY = 2\<rparr>"]
    by (simp add: uniformFrame_def scaled_def firstComposed_def sampleExternals_def)
  have 5: "NewFromReader sampleExternals
        (Encoded \<lparr>GIF_Image = [uniformFrame 1 2 white], GIF_Delay = [10]\<rparr>) Black
        DitheringWithBlocks
       = Error ErrInvalidBoundsMoT"
    using t[where gif = "\<lparr>GIF_Image = [uniformFrame 1 2 white], GIF_Delay = [10]\<rparr>"
        and p = "uniformFrame 1 2 white" and dm = DitheringWithBlocks and sm = ScaleModeResize
        and x = 2 and y = 2 and b = "\<lparr>MinX = 0, MinY = 0, MaxX = 2, MaxY = 2\<rparr>"]
    by (simp add: defs)
  have 6: "NewScaledFromReader sampleExternals
        (Encoded \<lparr>GIF_Image = [uniformFrame 3 3 white], GIF_Delay = [10]\<rparr>) 4 4 Black
        ScaleModeFit NoDithering
       = Error ErrHeightNonMoT"
    using t[where gif = "\<lparr>GIF_Image = [uniformFrame 3 3 white], GIF_Delay = [10]\<rparr>"
        and p = "uniformFrame 3 3 white" and dm = NoDithering and sm = ScaleModeFit
        and x = 4 and y = 4 and b = "\<lparr>MinX = 0, MinY = 0, MaxX = 3, MaxY = 3\<rparr>"]
    by (simp add: uniformFrame_def scaled_def firstComposed_def sampleExternals_def
        ScaleModeResize_def ScaleModeFill_def ScaleModeFit_def)
  have 7: "NewScaledFromReader sampleExternals
        (Encoded \<lparr>GIF_Image = [uniformFrame 1 1 white], GIF_Delay = [10]\<rparr>) 8 8 Black
        ScaleModeFit DitheringWithBlocks
       = Error ErrInvalidBoundsMoT"
    using t[where gif = "\<lparr>GIF_Image = [uniformFrame 1 1 white], GIF_Delay = [10]\<rparr>"
        and p = "uniformFrame 1 1 white" and dm = DitheringWithBlocks and sm = ScaleModeFit
        and x = 8 and y = 8 and b = "\<lparr>MinX = 0, MinY = 0, MaxX = 1, MaxY = 1\<rparr>"]
    by (simp add: defs)
  have 8: "NewScaledFromReader sampleExternals (Encoded oneSmallFrame) 3 2 Black ScaleModeResize
        NoDithering
       = Error ErrHeightNonMoT"
    using small[where dm = NoDithering and sm = ScaleModeResize
        and x = 2 and y = 3 and b = "\<lparr>MinX = 0, MinY = 0, MaxX = 2, MaxY = 3\<rparr>"]
    by (simp add: oneSmallFrame_def uniformFrame_def scaled_def firstComposed_def
        sampleExternals_def ScaleModeResize_def ScaleModeFill_def ScaleModeFit_def)
  have 9: "NewScaledFromReader sampleExternals (Encoded oneSmallFrame) 1 2 Black ScaleModeFill
        DitheringWithBlocks
       = Error ErrInvalidBoundsMoT"
    using small[where dm = DitheringWithBlocks and sm = ScaleModeFill
        and x = 2 and y = 1 and b = "\<lparr>MinX = 0, MinY = 0, MaxX = 2, MaxY = 1\<rparr>"]
    by (simp add: defs)
  have 10: "NewScaledFromReader sampleExternals (Encoded oneSmallFrame) 2 2 Black 7 NoDithering
       = Panic (PanicError errUnknownScaleMode)"
    using small[where dm = NoDithering and sm = 7
        and x = 2 and y = 2 and b = "\<lparr>MinX = 0, MinY = 0, MaxX = 2, MaxY = 2\<rparr>"]
    by (simp add: oneSmallFrame_def uniformFrame_def scaled_def firstComposed_def
        sampleExternals_def ScaleModeResize_def ScaleModeFill_def ScaleModeFit_def)
  from 1 2 3 4 5 6 7 8 9 10 show ?thesis by (intro conjI)
qed

text \<open>
  Where the claim as stated fails, on the one-frame GIF of 2 by 2 pixels. With the scale
  mode 3, which is none of the three the package knows, the call panics; it does not
  return the error, and it panics for the odd height 3 as well. With the odd height 3,
  no dithering and the scale mode \<open>ScaleModeFit\<close>, the frame already fits the requested
  size, is kept as it is, and the call returns an image of height 2: the requested
  height is not rejected.
\<close>

theorem unknown_scale_mode_panics:
  "NewScaledFromReader sampleExternals (Encoded oneSmallFrame) 2 2 Black 3 NoDithering
     = Panic (PanicError errUnknownScaleMode)
   \<and> NewScaledFromReader sampleExternals (Encoded oneSmallFrame) 2 2 Black 3 NoDithering
     \<noteq> Error errUnknownScaleMode
   \<and> NewScaledFromReader sampleExternals (Encoded oneSmallFrame) 3 2 Black 3 NoDithering
     = Panic (PanicError errUnknownScaleMode)
   \<and> NewScaledFromReader sampleExternals (Encoded oneSmallFrame) 3 2 Black ScaleModeFit
        NoDithering
     = Return smallWhiteImage
   \<and> NewScaledFromReader sampleExternals (Encoded oneSmallFrame) 3 2 Black ScaleModeFit
        NoDithering
     \<noteq> Error ErrHeightNonMoT"
proof -
  have "scaleLoop sampleExternals 3 y 2 \<lparr>MinX = 0, MinY = 0, MaxX = 2, MaxY = 2\<rparr> [10] 0
          [uniformFrame 2 2 white]
          (\<lparr>Bounds = \<lparr>MinX = 0, MinY = 0, MaxX = 2, MaxY = 2\<rparr>, isRGBA = True,
            pixels = (\<lambda>x y. (0, 0, 0, 0))\<rparr>, [], [0])
        = Panic (PanicError errUnknownScaleMode)" for y
    by (simp add: index_def ScaleModeResize_def ScaleModeFill_def ScaleModeFit_def)
  then have "NewScaledFromReader sampleExternals (Encoded oneSmallFrame) y 2 Black 3 NoDithering
     = Panic (PanicError errUnknownScaleMode)" for y
    by (simp add: NewScaledFromReader_def DecodeAll_def oneSmallFrame_def NewRGBA_def
        uniformFrame_def[of 2 2 white, THEN arg_cong[of _ _ Bounds]] del: scaleLoop.simps)
  then show ?thesis
    by (simp add: fit_accepts_odd_target)
qed

text \<open>
  Claim C4. On an image built by the package, for a frame index below \<open>FrameCount\<close> and a
  coordinate with \<open>0 \<le> y < h\<close> and \<open>0 \<le> x < w\<close>, \<open>SetAt\<close> returns no error and \<open>GetAt\<close>
  on the image after it returns exactly the colour and brightness written, while every
  other coordinate reads as before (so what is read is what was last written there). For
  a coordinate with \<open>y\<close> or \<open>x\<close> outside that range \<open>SetAt\<close> returns \<open>ErrOutOfBounds\<close> and
  leaves the image unchanged, and \<open>GetAt\<close> returns \<open>ErrOutOfBounds\<close>.
\<close>

theorem read_after_write:
  assumes "reachable ai"
  shows "(0 \<le> fr \<and> fr < FrameCount ai \<and> 0 \<le> y \<and> y < h ai \<and> 0 \<le> x \<and> x < w ai \<longrightarrow>
           (\<exists>ai' p. SetAt ai fr y x r g b bri = Return (ai', None) \<and>
              GetAt ai' fr y x = Return p \<and>
              R p = r \<and> G p = g \<and> B p = b \<and> Brightness p = bri \<and>
              (\<forall>fr' y' x'. (fr', y', x') \<noteq> (fr, y, x) \<longrightarrow>
                 GetAt ai' fr' y' x' = GetAt ai fr' y' x')))
       \<and> (\<not> (0 \<le> y \<and> y < h ai \<and> 0 \<le> x \<and> x < w ai) \<longrightarrow>
           SetAt ai fr y x r g b bri = Return (ai, Some ErrOutOfBounds) \<and>
           GetAt ai fr y x = Error ErrOutOfBounds)"
proof (intro conjI impI)
  assume "\<not> (0 \<le> y \<and> y < h ai \<and> 0 \<le> x \<and> x < w ai)"
  then show "SetAt ai fr y x r g b bri = Return (ai, Some ErrOutOfBounds)"
    and "GetAt ai fr y x = Error ErrOutOfBounds"
    by (auto simp: SetAt_def GetAt_def)
next
  assume rng: "0 \<le> fr \<and> fr < FrameCount ai \<and> 0 \<le> y \<and> y < h ai \<and> 0 \<le> x \<and> x < w ai"
  from assms have wf: "wellFormed ai" by (rule reachable_wellFormed)
  define q where "q = (frame ai ! nat fr ! nat y ! nat x)\<lparr>R := r, G := g, B := b,
           Brightness := bri, upper := (dithering ai = NoDithering \<and> y smod 2 = 0)\<rparr>"
  define ai' where "ai' = putCell ai fr y x q"
  have c: "cell ai fr y x = Some (frame ai ! nat fr ! nat y ! nat x)"
    using rng by (simp add: cell_wellFormed[OF wf] FrameCount_def)
  have set: "SetAt ai fr y x r g b bri = Return (ai', None)"
    using rng wf by (simp add: SetAt_in_grid ai'_def q_def)
  have cell': "cell ai' fr' y' x' =
      (if fr' = fr \<and> y' = y \<and> x' = x then Some q else cell ai fr' y' x')" for fr' y' x'
    unfolding ai'_def by (rule cell_putCell[OF c])
  have dims: "h ai' = h ai" "w ai' = w ai" by (simp_all add: ai'_def)
  have get: "GetAt ai' fr y x =
      Return \<lparr>Brightness = bri, R = r, G = g, B = b, upper = upper q\<rparr>"
  proof -
    have "GetAt ai' fr y x =
        Return \<lparr>Brightness = Brightness q, R = R q, G = G q, B = B q, upper = upper q\<rparr>"
      using rng by (simp add: GetAt_def cell' dims)
    then show ?thesis by (simp add: q_def)
  qed
  have other: "GetAt ai' fr' y' x' = GetAt ai fr' y' x'"
    if "(fr', y', x') \<noteq> (fr, y, x)" for fr' y' x'
    using that by (auto simp: GetAt_def cell' dims)
  show "\<exists>ai' p. SetAt ai fr y x r g b bri = Return (ai', None) \<and>
              GetAt ai' fr y x = Return p \<and>
              R p = r \<and> G p = g \<and> B p = b \<and> Brightness p = bri \<and>
              (\<forall>fr' y' x'. (fr', y', x') \<noteq> (fr, y, x) \<longrightarrow>
                 GetAt ai' fr' y' x' = GetAt ai fr' y' x')"
    using set get other
    by (intro exI[of _ ai']
        exI[of _ "\<lparr>Brightness = bri, R = r, G = g, B = b, upper = upper q\<rparr>"]) simp
qed

theorem read_after_write_witness:
  "reachable (sampleImage NoDithering)
   \<and> (\<exists>ai' p. SetAt (sampleImage NoDithering) 0 1 1 100 150 200 7 = Return (ai', None)
        \<and> GetAt ai' 0 1 1 = Return p
        \<and> R p = 100 \<and> G p = 150 \<and> B p = 200 \<and> Brightness p = 7
        \<and> GetAt ai' 0 0 1 = GetAt (sampleImage NoDithering) 0 0 1)
   \<and> SetAt (sampleImage NoDithering) 0 2 0 100 150 200 7
        = Return (sampleImage NoDithering, Some ErrOutOfBounds)
   \<and> GetAt (sampleImage NoDithering) 0 2 0 = Error ErrOutOfBounds"
proof -
  have r: "reachable (sampleImage NoDithering)" by (rule reachable_sample)
  have dims: "FrameCount (sampleImage NoDithering) = 1" "h (sampleImage NoDithering) = 2"
    "w (sampleImage NoDithering) = 2"
    by (simp_all add: FrameCount_def sampleImage_def)
  from read_after_write[OF r, where fr = 0 and y = 1 and x = 1 and r = 100 and g = 150
      and b = 200 and bri = 7]
  obtain ai' p where
    "SetAt (sampleImage NoDithering) 0 1 1 100 150 200 7 = Return (ai', None)"
    "GetAt ai' 0 1 1 = Return p" "R p = 100" "G p = 150" "B p = 200" "Brightness p = 7"
    "\<forall>fr' y' x'. (fr', y', x') \<noteq> (0, 1, 1) \<longrightarrow>
       GetAt ai' fr' y' x' = GetAt (sampleImage NoDithering) fr' y' x'"
    unfolding dims by auto
  moreover from this(7) have "GetAt ai' 0 0 1 = GetAt (sampleImage NoDithering) 0 0 1"
    by simp
  moreover from read_after_write[OF r, where fr = 0 and y = 2 and x = 0 and r = 100
      and g = 150 and b = 200 and bri = 7]
  have "SetAt (sampleImage NoDithering) 0 2 0 100 150 200 7
          = Return (sampleImage NoDithering, Some ErrOutOfBounds)"
    "GetAt (sampleImage NoDithering) 0 2 0 = Error ErrOutOfBounds"
    unfolding dims by simp_all
  ultimately show ?thesis using r by blast
qed

text \<open>
  Claim C5. A pixel of an image in a dithering mode is rendered as the background escape
  (unless suppressed), the foreground escape of its colour and one glyph picked by its
  brightness. In block mode the glyph is the full block for a brightness of 205 and
  above, the dark shade for 153 to 204, the medium shade for 101 to 152, the light shade
  for 49 to 100 and a space below. In character mode it is a character of the literal
  \<open>#&$Xx=+;:. \<close>, read from the brightest tier down in eleven tiers of 23 brightness
  values each (the last one, the space, has 24).
\<close>

theorem glyph_ladder:
  "(dithering src = DitheringWithBlocks \<longrightarrow>
      ANSIpixel_RenderExt src ap disableBg =
        Return ((if disableBg then [] else bgEscape (bgR src) (bgG src) (bgB src))
                @ fgEscape (R ap) (G ap) (B ap)
                @ (if 205 \<le> unat (Brightness ap) then fullBlock
                   else if 153 \<le> unat (Brightness ap) then darkShadeBlock
                   else if 101 \<le> unat (Brightness ap) then mediumShadeBlock
                   else if 49 \<le> unat (Brightness ap) then lightShadeBlock
                   else '' '')))
   \<and> (dithering src = DitheringWithChars \<longrightarrow>
      ANSIpixel_RenderExt src ap disableBg =
        Return ((if disableBg then [] else bgEscape (bgR src) (bgG src) (bgB src))
                @ fgEscape (R ap) (G ap) (B ap)
                @ [''#&$Xx=+;:. '' ! (10 - min 10 ((unat (Brightness ap) - 1) div 23))]))"
  unfolding blockGlyph_tiers[symmetric] charGlyph_tiers[symmetric]
  by (simp add: ANSIpixel_RenderExt_def ditheredText_def NoDithering_def
      DitheringWithBlocks_def DitheringWithChars_def)

theorem glyph_ladder_witness:
  "dithering (sampleImage DitheringWithBlocks) = DitheringWithBlocks
   \<and> dithering (sampleImage DitheringWithChars) = DitheringWithChars
   \<and> ANSIpixel_RenderExt (sampleImage DitheringWithBlocks) (samplePixel 205 False) True
       = Return (CHR 0x1B # ''[38;2;100;150;200m'' @ fullBlock)
   \<and> ANSIpixel_RenderExt (sampleImage DitheringWithBlocks) (samplePixel 204 False) True
       = Return (CHR 0x1B # ''[38;2;100;150;200m'' @ darkShadeBlock)
   \<and> ANSIpixel_RenderExt (sampleImage DitheringWithBlocks) (samplePixel 153 False) True
       = Return (CHR 0x1B # ''[38;2;100;150;200m'' @ darkShadeBlock)
   \<and> ANSIpixel_RenderExt (sampleImage DitheringWithBlocks) (samplePixel 152 False) True
       = Return (CHR 0x1B # ''[38;2;100;150;200m'' @ mediumShadeBlock)
   \<and> ANSIpixel_RenderExt (sampleImage DitheringWithBlocks) (samplePixel 101 False) True
       = Return (CHR 0x1B # ''[38;2;100;150;200m'' @ mediumShadeBlock)
   \<and> ANSIpixel_RenderExt (sampleImage DitheringWithBlocks) (samplePixel 100 False) True
       = Return (CHR 0x1B # ''[38;2;100;150;200m'' @ lightShadeBlock)
   \<and> ANSIpixel_RenderExt (sampleImage DitheringWithBlocks) (samplePixel 49 False) True
       = Return (CHR 0x1B # ''[38;2;100;150;200m'' @ lightShadeBlock)
   \<and> ANSIpixel_RenderExt (sampleImage DitheringWithBlocks) (samplePixel 48 False) False
       = Return (CHR 0x1B # ''[48;2;0;0;0m'' @ CHR 0x1B # ''[38;2;100;150;200m'' @ '' '')
   \<and> ANSIpixel_RenderExt (sampleImage DitheringWithChars) (samplePixel 255 False) True
       = Return (CHR 0x1B # ''[38;2;100;150;200m'' @ ''#'')
   \<and> ANSIpixel_RenderExt (sampleImage DitheringWithChars) (samplePixel 231 False) True
       = Return (CHR 0x1B # ''[38;2;100;150;200m'' @ ''#'')
   \<and> ANSIpixel_RenderExt (sampleImage DitheringWithChars) (samplePixel 230 False) True
       = Return (CHR 0x1B # ''[38;2;100;150;200m'' @ ''&'')
   \<and> ANSIpixel_RenderExt (sampleImage DitheringWithChars) (samplePixel 24 False) True
       = Return (CHR 0x1B # ''[38;2;100;150;200m'' @ ''.'')
   \<and> ANSIpixel_RenderExt (sampleImage DitheringWithChars) (samplePixel 23 False) True
       = Return (CHR 0x1B # ''[38;2;100;150;200m'' @ '' '')
   \<and> ANSIpixel_RenderExt (sampleImage DitheringWithChars) (samplePixel 0 False) True
       = Return (CHR 0x1B # ''[38;2;100;150;200m'' @ '' '')"
proof -
  have b: "dithering (sampleImage DitheringWithBlocks) = DitheringWithBlocks"
    and c: "dithering (sampleImage DitheringWithChars) = DitheringWithChars"
    by (simp_all add: sampleImage_def)
  have bg: "bgR (sampleImage dm) = 0" "bgG (sampleImage dm) = 0" "bgB (sampleImage dm) = 0" for dm
    by (simp_all add: sampleImage_def)
  have px: "R (samplePixel v u) = 100" "G (samplePixel v u) = 150" "B (samplePixel v u) = 200"
    "Brightness (samplePixel v u) = v" for v u
    by (simp_all add: samplePixel_def)
  note B = glyph_ladder[where src = "sampleImage DitheringWithBlocks", THEN conjunct1, rule_format, OF b]
  note C = glyph_ladder[where src = "sampleImage DitheringWithChars", THEN conjunct2, rule_format, OF c]
  show ?thesis
    unfolding B C px bg fgEscape_sample bgEscape_zero
    using b c by simp
qed

text \<open>
  Claim C6. Without dithering a pixel is encoded as follows: an upper cell is the
  background escape \<open>ESC[48;2;R;G;Bm\<close> of its colour and nothing else, a lower cell is the
  foreground escape \<open>ESC[38;2;R;G;Bm\<close> of its colour followed by the half block U+2584
  (bytes E2 96 84). Every row a worker assembles, in either mode, ends with the reset
  \<open>ESC[0m\<close> and a newline.
\<close>

theorem no_dithering_encoding:
  "(dithering ai = NoDithering \<longrightarrow>
      ANSIpixel_RenderExt ai ap disableBg =
        Return (if upper ap
                then [CHR 0x1B] @ ''[48;2;'' @ decimal (unat (R ap)) @ '';''
                       @ decimal (unat (G ap)) @ '';'' @ decimal (unat (B ap)) @ ''m''
                else [CHR 0x1B] @ ''[38;2;'' @ decimal (unat (R ap)) @ '';''
                       @ decimal (unat (G ap)) @ '';'' @ decimal (unat (B ap)) @ ''m''
                       @ [CHR 0xE2, CHR 0x96, CHR 0x84]))
   \<and> (renderRowPair ai fr disableBg y = Return str \<longrightarrow>
        (\<exists>body. str = body @ [CHR 0x1B] @ ''[0m'' @ [CHR 0x0A]))
   \<and> (renderRow ai fr disableBg y = Return str \<longrightarrow>
        (\<exists>body. str = body @ [CHR 0x1B] @ ''[0m'' @ [CHR 0x0A]))"
proof (intro conjI impI)
  assume "renderRowPair ai fr disableBg y = Return str"
  then show "\<exists>body. str = body @ [CHR 0x1B] @ ''[0m'' @ [CHR 0x0A]"
    using rowPairLoop_suffix[of ai fr disableBg y 0 "[]" str]
    by (simp add: renderRowPair_def backslash033_def backslashN_def)
next
  assume "renderRow ai fr disableBg y = Return str"
  then show "\<exists>body. str = body @ [CHR 0x1B] @ ''[0m'' @ [CHR 0x0A]"
    using rowLoop_suffix[of ai fr disableBg y 0 "[]" str]
    by (simp add: renderRow_def backslash033_def backslashN_def)
qed (simp add: ANSIpixel_RenderExt_def bgEscape_def fgEscape_def fmt_d_def
      backslash033_def lowerHalfBlock_def)

theorem no_dithering_encoding_witness:
  "dithering (sampleImage NoDithering) = NoDithering
   \<and> ANSIpixel_RenderExt (sampleImage NoDithering) (samplePixel 0 True) False
       = Return (CHR 0x1B # ''[48;2;100;150;200m'')
   \<and> ANSIpixel_RenderExt (sampleImage NoDithering) (samplePixel 0 False) False
       = Return (CHR 0x1B # ''[38;2;100;150;200m'' @ [CHR 0xE2, CHR 0x96, CHR 0x84])
   \<and> renderRowPair (sampleImage NoDithering) 0 False 0 =
       Return (CHR 0x1B # ''[48;2;0;0;0m'' @ CHR 0x1B # ''[38;2;0;0;0m''
               @ [CHR 0xE2, CHR 0x96, CHR 0x84]
             @ CHR 0x1B # ''[48;2;0;0;0m'' @ CHR 0x1B # ''[38;2;0;0;0m''
               @ [CHR 0xE2, CHR 0x96, CHR 0x84]
             @ CHR 0x1B # ''[0m'' @ [CHR 0x0A])
   \<and> (\<exists>body. CHR 0x1B # ''[48;2;0;0;0m'' @ CHR 0x1B # ''[38;2;0;0;0m''
               @ [CHR 0xE2, CHR 0x96, CHR 0x84]
             @ CHR 0x1B # ''[48;2;0;0;0m'' @ CHR 0x1B # ''[38;2;0;0;0m''
               @ [CHR 0xE2, CHR 0x96, CHR 0x84]
             @ CHR 0x1B # ''[0m'' @ [CHR 0x0A]
         = body @ [CHR 0x1B] @ ''[0m'' @ [CHR 0x0A])
   \<and> renderRow (sampleImage DitheringWithBlocks) 0 False 0 =
       Return (CHR 0x1B # ''[48;2;0;0;0m'' @ CHR 0x1B # ''[38;2;0;0;0m'' @ '' ''
             @ CHR 0x1B # ''[48;2;0;0;0m'' @ CHR 0x1B # ''[38;2;0;0;0m'' @ '' ''
             @ CHR 0x1B # ''[0m'' @ [CHR 0x0A])
   \<and> (\<exists>body. CHR 0x1B # ''[48;2;0;0;0m'' @ CHR 0x1B # ''[38;2;0;0;0m'' @ '' ''
             @ CHR 0x1B # ''[48;2;0;0;0m'' @ CHR 0x1B # ''[38;2;0;0;0m'' @ '' ''
             @ CHR 0x1B # ''[0m'' @ [CHR 0x0A]
         = body @ [CHR 0x1B] @ ''[0m'' @ [CHR 0x0A])"
proof -
  have nd: "dithering (sampleImage NoDithering) = NoDithering"
    by (simp add: sample_fields)
  have px: "R (samplePixel v u) = 100" "G (samplePixel v u) = 150" "B (samplePixel v u) = 200"
    "upper (samplePixel v u) = u" for v u
    by (simp_all add: samplePixel_def)
  have dec: "decimal 100 = ''100''" "decimal 150 = ''150''" "decimal 200 = ''200''"
    by (simp_all add: decimal.simps)
  note enc = no_dithering_encoding[where ai = "sampleImage NoDithering",
      THEN conjunct1, rule_format, OF nd]
  note pair = no_dithering_encoding[where ai = "sampleImage NoDithering" and fr = 0
      and disableBg = False and y = 0,
      THEN conjunct2, THEN conjunct1, rule_format, OF renderRowPair_sample]
  note row = no_dithering_encoding[where ai = "sampleImage DitheringWithBlocks" and fr = 0
      and disableBg = False and y = 0,
      THEN conjunct2, THEN conjunct2, rule_format, OF renderRow_sample]
  have "ANSIpixel_RenderExt (sampleImage NoDithering) (samplePixel 0 True) False
       = Return (CHR 0x1B # ''[48;2;100;150;200m'')"
    and "ANSIpixel_RenderExt (sampleImage NoDithering) (samplePixel 0 False) False
       = Return (CHR 0x1B # ''[38;2;100;150;200m'' @ [CHR 0xE2, CHR 0x96, CHR 0x84])"
    unfolding enc px by (simp_all add: dec)
  then show ?thesis
    using nd pair row renderRowPair_sample renderRow_sample by (intro conjI)
qed

text \<open>
  Claim C7, as the code has it. The brightness of a pixel is not an input of its own: the
  quantizer takes it from the same pixel as the colour, as the \<open>v\<close> of \<open>Hsv\<close>, the largest
  of the three channels. Let every \<open>float64\<close> operation whose exact result has a
  magnitude between 1/1024 and 1024 return it with a relative error of at most \<open>2^-53\<close>
  (what rounding to nearest gives for a result in the normal range), and let the 32
  pixels of the block of cell \<open>(y, x)\<close>, those at \<open>(4x + dx, 8y + dy)\<close> for \<open>dx\<close> below 4
  and \<open>dy\<close> below 8, all be opaque RGB (100, 150, 200), which the colour conversion maps
  to channels within \<open>2^-50\<close> of 100/255, 150/255 and 200/255 and to their maximum as
  brightness. Then the averages of the block are R = 100, G = 150, B = 200 and
  brightness = 200, and in a dithering mode these are the values the cell holds
  afterwards.
\<close>

theorem quantizer_averaging:
  assumes fl: "\<forall>v. 1 / 1024 \<le> \<bar>v\<bar> \<and> \<bar>v\<bar> \<le> 1024 \<longrightarrow>
                \<bar>float64_round ext v - v\<bar> \<le> \<bar>v\<bar> / 2 ^ 53"
    and px: "\<forall>dy dx. 0 \<le> dy \<and> dy < 8 \<and> 0 \<le> dx \<and> dx < 4 \<longrightarrow>
               RGBAAt rgbaOut (4 * x + dx) (8 * y + dy) = (100, 150, 200, 255)"
    and conv: "colorful_RGBV ext (100, 150, 200, 255) = (cr, cg, cb, cv)"
    and near: "\<bar>cr - 100 / 255\<bar> \<le> 1 / 2 ^ 50" "\<bar>cg - 150 / 255\<bar> \<le> 1 / 2 ^ 50"
      "\<bar>cb - 200 / 255\<bar> \<le> 1 / 2 ^ 50"
    and hsv: "cv = max cr (max cg cb)"
  shows "quantizeBlock ext rgbaOut y x = (100, 150, 200, 200)
    \<and> (dm \<noteq> NoDithering \<and> reachable ai \<and> 0 \<le> fr \<and> fr < FrameCount ai \<and>
        0 \<le> y \<and> y < h ai \<and> 0 \<le> x \<and> x < w ai \<longrightarrow>
        (\<exists>ai' p. quantizeCell ext dm rgbaOut fr y x ai = Return ai' \<and>
           GetAt ai' fr y x = Return p \<and>
           R p = 100 \<and> G p = 150 \<and> B p = 200 \<and> Brightness p = 200))"
proof -
  from fl have fl': "\<And>v. 1 / 1024 \<le> \<bar>v\<bar> \<Longrightarrow> \<bar>v\<bar> \<le> 1024 \<Longrightarrow>
      \<bar>float64_round ext v - v\<bar> \<le> \<bar>v\<bar> / 2 ^ 53" by blast
  from px have px': "\<And>dy dx. 0 \<le> dy \<Longrightarrow> dy < 8 \<Longrightarrow> 0 \<le> dx \<Longrightarrow> dx < 4 \<Longrightarrow>
      RGBAAt rgbaOut (4 * x + dx) (8 * y + dy) = (100, 150, 200, 255)" by blast
  have blk: "quantizeBlock ext rgbaOut y x = (100, 150, 200, 200)"
    by (rule quantizeBlock_blue[OF fl' px' conv near hsv])
  have stored: "\<exists>ai' p. quantizeCell ext dm rgbaOut fr y x ai = Return ai' \<and>
           GetAt ai' fr y x = Return p \<and>
           R p = 100 \<and> G p = 150 \<and> B p = 200 \<and> Brightness p = 200"
    if a: "dm \<noteq> NoDithering \<and> reachable ai \<and> 0 \<le> fr \<and> fr < FrameCount ai \<and>
        0 \<le> y \<and> y < h ai \<and> 0 \<le> x \<and> x < w ai"
  proof -
    from a have wf: "wellFormed ai" by (blast intro: reachable_wellFormed)
    from SetAt_then_GetAt[OF wf, of fr y x 100 150 200 200] a obtain ai' where
      "SetAt ai fr y x 100 150 200 200 = Return (ai', None)"
      "GetAt ai' fr y x = Return \<lparr>Brightness = 200, R = 100, G = 150, B = 200,
                     upper = (dithering ai = NoDithering \<and> y smod 2 = 0)\<rparr>"
      by blast
    then show ?thesis
      using a by (auto simp: quantizeCell_def blk setOrReturn_def)
  qed
  from blk stored show ?thesis by blast
qed

theorem quantizer_averaging_witness:
  "quantizeBlock sampleExternals patchBuffer 1 1 = (100, 150, 200, 200)
   \<and> reachable blankImage
   \<and> (\<exists>ai' p. quantizeCell sampleExternals DitheringWithBlocks patchBuffer 0 1 1 blankImage
                 = Return ai' \<and>
           GetAt ai' 0 1 1 = Return p \<and>
           R p = 100 \<and> G p = 150 \<and> B p = 200 \<and> Brightness p = 200)"
proof -
  have fl: "\<forall>v. 1 / 1024 \<le> \<bar>v\<bar> \<and> \<bar>v\<bar> \<le> 1024 \<longrightarrow>
      \<bar>float64_round sampleExternals v - v\<bar> \<le> \<bar>v\<bar> / 2 ^ 53"
    by (simp add: sample_round)
  have px: "\<forall>dy dx. 0 \<le> dy \<and> dy < 8 \<and> 0 \<le> dx \<and> dx < 4 \<longrightarrow>
      RGBAAt patchBuffer (4 * 1 + dx) (8 * 1 + dy) = (100, 150, 200, 255)"
    using patchBuffer_block by blast
  have r: "reachable blankImage" by (rule reach_New[OF New_blankImage])
  have ne: "DitheringWithBlocks \<noteq> NoDithering"
    by (simp add: NoDithering_def DitheringWithBlocks_def)
  note t = quantizer_averaging[OF fl px sample_conversion, where dm = DitheringWithBlocks
      and ai = blankImage and fr = 0, simplified]
  from t have 1: "quantizeBlock sampleExternals patchBuffer 1 1 = (100, 150, 200, 200)"
    by blast
  from t ne r have 2: "\<exists>ai' p.
      quantizeCell sampleExternals DitheringWithBlocks patchBuffer 0 1 1 blankImage
                 = Return ai' \<and>
           GetAt ai' 0 1 1 = Return p \<and>
           R p = 100 \<and> G p = 150 \<and> B p = 200 \<and> Brightness p = 200"
    by (simp add: FrameCount_def blankImage_def)
  from 1 r 2 show ?thesis by (intro conjI)
qed

text \<open>
  Where the claim as stated fails: on a block of 32 opaque pixels of RGB (100, 150, 200)
  the stored brightness is 200, the largest channel, and not within 1 of 128; the
  brightness the conversion gives such a pixel is 200/255 and not 1/2.
\<close>

theorem brightness_is_largest_channel:
  "quantizeBlock sampleExternals patchBuffer 1 1 = (100, 150, 200, 200)
   \<and> (200 :: 8 word) \<noteq> 127 \<and> (200 :: 8 word) \<noteq> 128 \<and> (200 :: 8 word) \<noteq> 129
   \<and> snd (snd (snd (colorful_RGBV sampleExternals (100, 150, 200, 255)))) = 200 / 255
   \<and> snd (snd (snd (colorful_RGBV sampleExternals (100, 150, 200, 255)))) \<noteq> 1 / 2"
  by (simp add: quantizeBlock_patch sample_conversion)

text \<open>
  Claim C8. A stream that is malformed, or that holds no frame, makes \<open>NewFromReader\<close> and
  \<open>NewScaledFromReader\<close> return the decoder's error to the caller; the result carries no
  image. For a malformed stream the error is the decoder's own, unchanged.
\<close>

theorem decode_failure_returned:
  "NewFromReader ext (Malformed msg) bg dm = Error (DecodeFailure msg)
   \<and> NewScaledFromReader ext (Malformed msg) y x bg sm dm = Error (DecodeFailure msg)
   \<and> (GIF_Image g = [] \<longrightarrow>
        (\<exists>m. NewFromReader ext (Encoded g) bg dm = Error (DecodeFailure m) \<and>
             NewScaledFromReader ext (Encoded g) y x bg sm dm = Error (DecodeFailure m)))"
  by (simp add: NewFromReader_def NewScaledFromReader_def DecodeAll_def)

theorem decode_failure_returned_witness:
  "NewFromReader sampleExternals (Malformed ''gif: can't recognize format'') Black NoDithering
     = Error (DecodeFailure ''gif: can't recognize format'')
   \<and> GIF_Image \<lparr>GIF_Image = [], GIF_Delay = []\<rparr> = []
   \<and> (\<exists>m. NewFromReader sampleExternals (Encoded \<lparr>GIF_Image = [], GIF_Delay = []\<rparr>)
              Black NoDithering = Error (DecodeFailure m)
         \<and> NewScaledFromReader sampleExternals (Encoded \<lparr>GIF_Image = [], GIF_Delay = []\<rparr>)
              48 80 Black ScaleModeFit NoDithering = Error (DecodeFailure m))"
  using decode_failure_returned[where ext = sampleExternals
      and msg = "''gif: can't recognize format''" and bg = Black and dm = NoDithering
      and g = "\<lparr>GIF_Image = [], GIF_Delay = []\<rparr>" and y = 48 and x = 80
      and sm = ScaleModeFit]
  by simp

text \<open>
  Claim C9. No operation checks the frame index. On an image built by the package,
  \<open>FrameDelay\<close> panics with an index-out-of-range exactly when the frame index is outside
  \<open>[0, FrameCount)\<close>, and \<open>SetAt\<close> and \<open>GetAt\<close> panic exactly when the frame index is
  outside that range while \<open>y\<close> and \<open>x\<close> are within the grid; in that case none of the
  three returns \<open>ErrOutOfBounds\<close>. So the operations are total only for
  \<open>0 \<le> frame < FrameCount\<close>.
\<close>

theorem frame_index_unchecked:
  assumes "reachable ai"
  shows "(FrameDelay ai fr = Panic IndexOutOfRange \<longleftrightarrow> \<not> (0 \<le> fr \<and> fr < FrameCount ai))
    \<and> (SetAt ai fr y x r g b bri = Panic IndexOutOfRange \<longleftrightarrow>
          \<not> (0 \<le> fr \<and> fr < FrameCount ai) \<and> 0 \<le> y \<and> y < h ai \<and> 0 \<le> x \<and> x < w ai)
    \<and> (GetAt ai fr y x = Panic IndexOutOfRange \<longleftrightarrow>
          \<not> (0 \<le> fr \<and> fr < FrameCount ai) \<and> 0 \<le> y \<and> y < h ai \<and> 0 \<le> x \<and> x < w ai)
    \<and> (\<not> (0 \<le> fr \<and> fr < FrameCount ai) \<and> 0 \<le> y \<and> y < h ai \<and> 0 \<le> x \<and> x < w ai \<longrightarrow>
          SetAt ai fr y x r g b bri \<noteq> Return (ai, Some ErrOutOfBounds) \<and>
          GetAt ai fr y x \<noteq> Error ErrOutOfBounds \<and>
          FrameDelay ai fr \<noteq> Error ErrOutOfBounds)"
proof -
  from assms have wf: "wellFormed ai" by (rule reachable_wellFormed)
  then have len: "length (delay ai) = length (frame ai)" by (simp add: wellFormed_def)
  have 1: "FrameDelay ai fr = Panic IndexOutOfRange \<longleftrightarrow> \<not> (0 \<le> fr \<and> fr < FrameCount ai)"
    by (auto simp: FrameDelay_def FrameCount_def index_def len)
  have 2: "SetAt ai fr y x r g b bri = Panic IndexOutOfRange \<longleftrightarrow>
          \<not> (0 \<le> fr \<and> fr < FrameCount ai) \<and> 0 \<le> y \<and> y < h ai \<and> 0 \<le> x \<and> x < w ai"
    by (auto simp: SetAt_def FrameCount_def cell_wellFormed[OF wf])
  have 3: "GetAt ai fr y x = Panic IndexOutOfRange \<longleftrightarrow>
          \<not> (0 \<le> fr \<and> fr < FrameCount ai) \<and> 0 \<le> y \<and> y < h ai \<and> 0 \<le> x \<and> x < w ai"
    by (auto simp: GetAt_def FrameCount_def cell_wellFormed[OF wf])
  show ?thesis
    unfolding 1 2 3 using 1 2 3 by auto
qed

theorem frame_index_unchecked_witness:
  "reachable (sampleImage NoDithering)
   \<and> FrameCount (sampleImage NoDithering) = 1
   \<and> FrameDelay (sampleImage NoDithering) 1 = Panic IndexOutOfRange
   \<and> SetAt (sampleImage NoDithering) 1 0 0 100 150 200 7 = Panic IndexOutOfRange
   \<and> GetAt (sampleImage NoDithering) 1 0 0 = Panic IndexOutOfRange
   \<and> GetAt (sampleImage NoDithering) (- 1) 1 1 = Panic IndexOutOfRange
   \<and> SetAt (sampleImage NoDithering) 0 0 0 100 150 200 7 \<noteq> Panic IndexOutOfRange
   \<and> FrameDelay (sampleImage NoDithering) 0 \<noteq> Panic IndexOutOfRange"
proof -
  have r: "reachable (sampleImage NoDithering)" by (rule reachable_sample)
  have dims: "FrameCount (sampleImage NoDithering) = 1" "h (sampleImage NoDithering) = 2"
    "w (sampleImage NoDithering) = 2"
    by (simp_all add: FrameCount_def sampleImage_def)
  show ?thesis
    using r dims(1)
      frame_index_unchecked[OF r, where fr = 1 and y = 0 and x = 0 and r = 100 and g = 150
        and b = 200 and bri = 7]
      frame_index_unchecked[OF r, where fr = "- 1" and y = 1 and x = 1 and r = 100 and g = 150
        and b = 200 and bri = 7]
      frame_index_unchecked[OF r, where fr = 0 and y = 0 and x = 0 and r = 100 and g = 150
        and b = 200 and bri = 7]
    unfolding dims by simp
qed

text \<open>
  Claim C10. Role-flag invariant: \<open>New\<close> establishes it for every cell of every frame,
  every \<open>SetAt\<close> preserves it whatever colour and brightness it is given, and therefore in
  every image the package can build, each cell at row \<open>y\<close> has its \<open>upper\<close> flag equal to
  (dithering mode is \<open>NoDithering\<close> and \<open>y\<close> is even).
\<close>

theorem role_flag_invariant:
  "(New hh ww n bg dm = Return ai \<longrightarrow> roleFlags ai) \<and>
   (roleFlags ai \<and> SetAt ai fr y x r g b bri = Return (ai', e) \<longrightarrow> roleFlags ai') \<and>
   (reachable ai \<longrightarrow>
      (\<forall>fr y x p. cell ai fr y x = Some p \<longrightarrow>
         upper p = (dithering ai = NoDithering \<and> even y)))"
proof (intro conjI impI)
  assume "reachable ai"
  then have "roleFlags ai"
  proof (induction rule: reachable.induct)
    case (reach_New hh ww n bg dm ai)
    then show ?case by (rule New_roleFlags)
  next
    case (reach_SetAt ai fr y x r g b bri ai' e)
    then show ?case by (blast intro: SetAt_roleFlags)
  next
    case (reach_SetMaxProcs ai m)
    then show ?case by (simp add: roleFlags_def SetMaxProcs_def cell_def)
  next
    case (reach_delay ai fr d)
    then show ?case by (simp add: roleFlags_def cell_def)
  qed
  then show "\<forall>fr y x p. cell ai fr y x = Some p \<longrightarrow>
      upper p = (dithering ai = NoDithering \<and> even y)"
    by (simp add: roleFlags_def)
qed (auto intro: New_roleFlags SetAt_roleFlags)

theorem role_flag_invariant_witness:
  "New 2 2 1 Black NoDithering = Return (sampleImage NoDithering)
   \<and> reachable (sampleImage NoDithering)
   \<and> SetAt (sampleImage NoDithering) 0 1 1 100 150 200 7
       = Return (putCell (sampleImage NoDithering) 0 1 1 (samplePixel 7 False), None)
   \<and> cell (putCell (sampleImage NoDithering) 0 1 1 (samplePixel 7 False)) 0 1 1
       = Some (samplePixel 7 False)
   \<and> cell (sampleImage NoDithering) 0 0 1 = Some (newPixel NoDithering 0)
   \<and> upper (newPixel NoDithering 0)
   \<and> \<not> upper (samplePixel 7 False)"
proof -
  let ?ai = "sampleImage NoDithering"
  let ?ai' = "putCell ?ai 0 1 1 (samplePixel 7 False)"
  have new: "New 2 2 1 Black NoDithering = Return ?ai" by (rule New_sample)
  have r: "reachable ?ai" by (rule reachable_sample)
  have set: "SetAt ?ai 0 1 1 100 150 200 7 = Return (?ai', None)"
    by (simp add: SetAt_def cell_sample newPixel_def samplePixel_def NoDithering_def
        signed_modulo_int_def) (simp add: sampleImage_def)
  have c': "cell ?ai' 0 1 1 = Some (samplePixel 7 False)"
    by (simp add: cell_putCell[OF cell_sample(4)])
  have c: "cell ?ai 0 0 1 = Some (newPixel NoDithering 0)" by (rule cell_sample)
  from role_flag_invariant[where hh = 2 and ww = 2 and n = 1 and bg = Black
      and dm = NoDithering and ai = ?ai and fr = 0 and y = 1 and x = 1 and r = 100
      and g = 150 and b = 200 and bri = 7 and ai' = ?ai' and e = None] new set r
  have inv: "roleFlags ?ai" "roleFlags ?ai'"
    and all: "\<forall>fr y x p. cell ?ai fr y x = Some p \<longrightarrow>
        upper p = (dithering ?ai = NoDithering \<and> even y)"
    by blast+
  from all c have "upper (newPixel NoDithering 0)"
    by (auto simp: sampleImage_def)
  moreover from inv(2) c' have "\<not> upper (samplePixel 7 False)"
    by (auto simp: roleFlags_def)
  ultimately show ?thesis using new r set c c' by blast
qed


end
